theory Spec2Isabelle
  imports Main
begin

text \<open>
  A shallow embedding of \<^verbatim>\<open>KeyValueDB\<close> (\<^verbatim>\<open>src/index.ts\<close>, with the types of
  \<^verbatim>\<open>src/types.ts\<close> and the fixtures of \<^verbatim>\<open>src/kvdb.test.ts\<close>): a cached, namespaced
  accessor over an asynchronous key-value storage, with a runner for versioned migrations.

  Every method is a function from the state of the instance and of the storage to its
  result and the state it leaves; a thrown exception or a rejected promise is the left
  injection of the result. A call runs to its end before the next one starts: interleaved
  calls are not modelled.
\<close>

section \<open>JavaScript values, as far as the store handles them\<close>

text \<open>
  The store keeps JSON-serialisable application data. A value is modelled as plain data;
  numbers are the integers, taken exactly (no floating point, no rounding of large
  values). An object is the list of its own enumerable properties in insertion order; the
  rule that puts integer-like keys first is not modelled.
\<close>

datatype jsval =
    Undefined
  | Null
  | Bool bool
  | Num int
  | Str string
  | Arr "jsval list"
  | Obj "(string \<times> jsval) list"

text \<open>The truthiness test behind \<^verbatim>\<open>!v\<close>.\<close>

fun truthy :: "jsval \<Rightarrow> bool" where
  "truthy Undefined = False"
| "truthy Null = False"
| "truthy (Bool b) = b"
| "truthy (Num n) = (n \<noteq> 0)"
| "truthy (Str s) = (s \<noteq> [])"
| "truthy (Arr xs) = True"
| "truthy (Obj ps) = True"

text \<open>
  The result of \<^verbatim>\<open>parseInt\<close> and the loop variables of the migration runner are
  numbers that may be \<^verbatim>\<open>NaN\<close>; finite values are integers.
\<close>

datatype jsnumber = NaN | Fin int

fun num_le :: "jsnumber \<Rightarrow> jsnumber \<Rightarrow> bool" where
  "num_le (Fin a) (Fin b) = (a \<le> b)"
| "num_le _ _ = False"

fun num_ge :: "jsnumber \<Rightarrow> jsnumber \<Rightarrow> bool" where
  "num_ge (Fin a) (Fin b) = (a \<ge> b)"
| "num_ge _ _ = False"

fun num_truthy :: "jsnumber \<Rightarrow> bool" where
  "num_truthy NaN = False"
| "num_truthy (Fin n) = (n \<noteq> 0)"

subsection \<open>\<^verbatim>\<open>parseInt(v, 10)\<close> and the property key of a number\<close>

definition isWhiteSpace :: "char \<Rightarrow> bool" where
  "isWhiteSpace c = (c \<in> {CHR 0x09, CHR 0x0A, CHR 0x0B, CHR 0x0C, CHR 0x0D, CHR '' ''})"

definition isDigit :: "char \<Rightarrow> bool" where
  "isDigit c = (48 \<le> (of_char c :: nat) \<and> (of_char c :: nat) \<le> 57)"

definition digitValue :: "char \<Rightarrow> nat" where
  "digitValue c = of_char c - 48"

definition digitsValue :: "string \<Rightarrow> nat" where
  "digitsValue Z = foldl (\<lambda>a c. 10 * a + digitValue c) 0 Z"

text \<open>
  \<^verbatim>\<open>parseInt\<close> with radix 10: leading white space is dropped (the ASCII white space; a
  \<open>char\<close> is a byte), one sign is read, then the longest prefix of decimal digits; no digit
  at all gives \<^verbatim>\<open>NaN\<close>. Whatever follows the digits is ignored. It never throws.

  The digits are read exactly, where the code rounds the number they denote to a double.
  The two agree as long as the digits denote at most 9007199254740991
  (\<^verbatim>\<open>Number.MAX_SAFE_INTEGER\<close>); the same bound makes the subtraction of the sort and
  the property key of the number exact. Beyond it the code may look up another key than
  the one it parsed, so the properties that follow a version key through \<^verbatim>\<open>parseInt\<close> and
  back into the table are stated for keys within the bound.
\<close>

definition parseInt :: "string \<Rightarrow> jsnumber" where
  "parseInt str =
     (let S = dropWhile isWhiteSpace str;
          sign = (case S of c # r \<Rightarrow> if c = CHR ''-'' then (-1::int) else 1 | [] \<Rightarrow> 1);
          S' = (case S of c # r \<Rightarrow> if c = CHR ''-'' \<or> c = CHR ''+'' then r else S | [] \<Rightarrow> S);
          Z = takeWhile isDigit S'
      in if Z = [] then NaN else Fin (sign * int (digitsValue Z)))"

definition digitChar :: "nat \<Rightarrow> char" where
  "digitChar d = char_of (48 + d)"

fun natToString :: "nat \<Rightarrow> string" where
  "natToString n = (if n < 10 then [digitChar n] else natToString (n div 10) @ [digitChar (n mod 10)])"

declare natToString.simps [simp del]

text \<open>
  The property key a number turns into when it indexes an object
  (\<^verbatim>\<open>migrationFunctionTable[v]\<close>): \<^verbatim>\<open>NaN\<close>, or the decimal digits of the integer.
\<close>

fun NumberToString :: "jsnumber \<Rightarrow> string" where
  "NumberToString NaN = ''NaN''"
| "NumberToString (Fin n) = (if n < 0 then CHR ''-'' # natToString (nat (- n)) else natToString (nat n))"

subsection \<open>\<^verbatim>\<open>Array.prototype.sort((a, b) => a - b)\<close>\<close>

fun comparefn :: "jsnumber \<Rightarrow> jsnumber \<Rightarrow> jsnumber" where
  "comparefn (Fin a) (Fin b) = Fin (a - b)"
| "comparefn _ _ = NaN"

text \<open>A comparator result of \<^verbatim>\<open>NaN\<close> counts as 0.\<close>

definition SortCompare :: "jsnumber \<Rightarrow> jsnumber \<Rightarrow> int" where
  "SortCompare x y = (case comparefn x y of NaN \<Rightarrow> 0 | Fin d \<Rightarrow> d)"

fun sort_insert :: "jsnumber \<Rightarrow> jsnumber list \<Rightarrow> jsnumber list" where
  "sort_insert x [] = [x]"
| "sort_insert x (y # ys) = (if SortCompare x y \<le> 0 then x # y # ys else y # sort_insert x ys)"

text \<open>
  The sort is stable. On an array without \<^verbatim>\<open>NaN\<close> the result is the ascending order,
  and on an array of one number and \<^verbatim>\<open>NaN\<close> all comparisons give 0, so the two keep
  their order. With \<^verbatim>\<open>NaN\<close> among different numbers the comparator is inconsistent and
  the language leaves the order to the implementation; nothing below depends on such an
  array.
\<close>

definition array_sort :: "jsnumber list \<Rightarrow> jsnumber list" where
  "array_sort xs = foldr sort_insert xs []"


section \<open>The data model\<close>

text \<open>The metadata record \<^verbatim>\<open>DBInfo\<close> of \<^verbatim>\<open>types.ts\<close>.\<close>

record DBInfo =
  lastMigrationVersion :: int
  currUser :: string

text \<open>\<^verbatim>\<open>Partial<DBInfo>\<close>: each field may be missing.\<close>

record PartialDBInfo =
  lastMigrationVersion_opt :: "int option"
  currUser_opt :: "string option"

text \<open>\<^verbatim>\<open>Object.assign(meta, m)\<close> on a metadata record.\<close>

definition assignDBInfo :: "DBInfo \<Rightarrow> PartialDBInfo \<Rightarrow> DBInfo" where
  "assignDBInfo meta m =
     \<lparr> lastMigrationVersion =
         (case lastMigrationVersion_opt m of None \<Rightarrow> lastMigrationVersion meta | Some n \<Rightarrow> n),
       currUser = (case currUser_opt m of None \<Rightarrow> currUser meta | Some u \<Rightarrow> u) \<rparr>"

definition asPartial :: "DBInfo \<Rightarrow> PartialDBInfo" where
  "asPartial meta =
     \<lparr> lastMigrationVersion_opt = Some (lastMigrationVersion meta),
       currUser_opt = Some (currUser meta) \<rparr>"

text \<open>
  The metadata record as the object that is serialised, and read back. Only the two fields
  of \<^verbatim>\<open>DBInfo\<close> are kept.
\<close>

definition jsval_of_DBInfo :: "DBInfo \<Rightarrow> jsval" where
  "jsval_of_DBInfo meta =
     Obj [(''lastMigrationVersion'', Num (lastMigrationVersion meta)),
          (''currUser'', Str (currUser meta))]"

fun DBInfo_of_jsval :: "jsval \<Rightarrow> DBInfo option" where
  "DBInfo_of_jsval (Obj ps) =
     (case (map_of ps ''lastMigrationVersion'', map_of ps ''currUser'') of
        (Some (Num n), Some (Str u)) \<Rightarrow> Some \<lparr> lastMigrationVersion = n, currUser = u \<rparr>
      | _ \<Rightarrow> None)"
| "DBInfo_of_jsval _ = None"

text \<open>
  What an operation can throw. \<^verbatim>\<open>InvalidArgument k\<close> is the
  \<^verbatim>\<open>Error('Key (k) ... must be non-empty')\<close> of the argument checks, \<^verbatim>\<open>Rejected key\<close>
  a rejected promise of the underlying storage, \<^verbatim>\<open>SyntaxError text\<close> what
  \<^verbatim>\<open>JSON.parse\<close> throws, \<^verbatim>\<open>TypeError\<close> a property read or an iteration on
  \<^verbatim>\<open>undefined\<close>, \<^verbatim>\<open>Thrown\<close> an exception of a migration function.
  \<^verbatim>\<open>OutsideModel\<close> marks a run that leaves the declared types (stored metadata that is
  no \<^verbatim>\<open>DBInfo\<close>, \<^verbatim>\<open>Object.assign\<close> onto a cached value that is no plain object, or
  onto the metadata object with a source that is no part of a \<^verbatim>\<open>DBInfo\<close>).
\<close>

datatype error =
    InvalidArgument string
  | Rejected string
  | SyntaxError string
  | TypeError
  | Thrown string
  | OutsideModel

text \<open>
  What a run shows to an observer: the console lines and the invocations of the migration
  functions (by name), in the order they happen.
\<close>

datatype event =
    Called string
  | ConsoleError string
  | ConsoleErrorExn error
  | ConsoleInfo string

text \<open>
  The external collaborators. The JSON codec and the behaviour of the underlying storage
  are not part of the repository: they are parameters. \<^verbatim>\<open>JSON_parse\<close> gives
  \<^verbatim>\<open>None\<close> where \<^verbatim>\<open>JSON.parse\<close> throws; the three predicates say for which keys the
  storage rejects a read, a write, a removal.
\<close>

record collaborators =
  JSON_stringify :: "jsval \<Rightarrow> string"
  JSON_parse :: "string \<Rightarrow> jsval option"
  getItem_rejects :: "string \<Rightarrow> bool"
  setItem_rejects :: "string \<Rightarrow> bool"
  removeItem_rejects :: "string \<Rightarrow> bool"
  randomUUID :: string

text \<open>
  What the cache holds under a key, and what \<^verbatim>\<open>put\<close> and \<^verbatim>\<open>update\<close> are given.
  \<^verbatim>\<open>put\<close> stores the very object it is given and \<^verbatim>\<open>update\<close> merges in place into
  the object it finds, so it matters whether that object is one of the store's own. One
  such object is within reach of the public methods: the metadata record, which
  \<^verbatim>\<open>getMeta\<close> returns by reference. An entry is either an object of its own, given by
  its content, or that metadata object, whose content is the metadata of the moment.

  Entries of the first kind share nothing with the store or with each other: an object
  held under two keys is modelled as two equal objects, and the cache object that
  \<^verbatim>\<open>getCache\<close> returns is not a value that can be put back into the store.
\<close>

datatype entry = Own jsval | MetaObject

fun entry_truthy :: "entry \<Rightarrow> bool" where
  "entry_truthy (Own v) = truthy v"
| "entry_truthy MetaObject = True"

text \<open>
  The private fields of a \<^verbatim>\<open>KeyValueDB\<close> instance, together with the content of the
  underlying storage it works on. A field that is \<^verbatim>\<open>undefined\<close> is \<^verbatim>\<open>None\<close>.
\<close>

record KeyValueDB =
  defaultMeta :: DBInfo
  dbCache :: "(string \<rightharpoonup> entry) option"
  dbMetaCache :: "DBInfo option"
  dbInstallId :: "string option"
  AsyncStorage :: "string \<rightharpoonup> string"

definition metaKey :: string where
  "metaKey = ''ns342xcv334Meta''"

definition installIdKey :: string where
  "installIdKey = ''ns342xcv334InstallId''"

text \<open>The content of an entry, as \<^verbatim>\<open>JSON.stringify\<close> and \<^verbatim>\<open>Object.assign\<close> read it.\<close>

definition entry_content :: "KeyValueDB \<Rightarrow> entry \<Rightarrow> jsval" where
  "entry_content s e =
     (case e of
        Own v \<Rightarrow> v
      | MetaObject \<Rightarrow> (case dbMetaCache s of None \<Rightarrow> Undefined | Some meta \<Rightarrow> jsval_of_DBInfo meta))"

text \<open>The constructor only stores the defaults.\<close>

definition new_KeyValueDB :: "DBInfo \<Rightarrow> (string \<rightharpoonup> string) \<Rightarrow> KeyValueDB" where
  "new_KeyValueDB dm disk =
     \<lparr> defaultMeta = dm, dbCache = None, dbMetaCache = None, dbInstallId = None,
       AsyncStorage = disk \<rparr>"

section \<open>Operations\<close>

text \<open>
  An operation takes the state and returns what it returns or throws, with the state it
  leaves. \<^verbatim>\<open>await\<close> sequences two of them: an exception of the first ends the run.
\<close>

type_synonym 'a action = "KeyValueDB \<Rightarrow> (error + 'a) \<times> KeyValueDB"

definition await :: "'a action \<Rightarrow> ('a \<Rightarrow> 'b action) \<Rightarrow> 'b action" where
  "await p k s = (case p s of (Inl e, s') \<Rightarrow> (Inl e, s') | (Inr x, s') \<Rightarrow> k x s')"

definition AsyncStorage_getItem :: "collaborators \<Rightarrow> string \<Rightarrow> string option action" where
  "AsyncStorage_getItem c key s =
     (if getItem_rejects c key then (Inl (Rejected key), s) else (Inr (AsyncStorage s key), s))"

definition AsyncStorage_setItem :: "collaborators \<Rightarrow> string \<Rightarrow> string \<Rightarrow> unit action" where
  "AsyncStorage_setItem c key v s =
     (if setItem_rejects c key then (Inl (Rejected key), s)
      else (Inr (), s\<lparr>AsyncStorage := (AsyncStorage s)(key \<mapsto> v)\<rparr>))"

definition AsyncStorage_removeItem :: "collaborators \<Rightarrow> string \<Rightarrow> unit action" where
  "AsyncStorage_removeItem c key s =
     (if removeItem_rejects c key then (Inl (Rejected key), s)
      else (Inr (), s\<lparr>AsyncStorage := (AsyncStorage s)(key := None)\<rparr>))"

definition string_truthy :: "string option \<Rightarrow> bool" where
  "string_truthy x = (case x of None \<Rightarrow> False | Some t \<Rightarrow> t \<noteq> [])"

definition getInstallId :: "collaborators \<Rightarrow> string action" where
  "getInstallId c s =
     (if string_truthy (dbInstallId s) then (Inr (the (dbInstallId s)), s)
      else await (AsyncStorage_getItem c installIdKey) (\<lambda>dbid s.
             if string_truthy dbid then (Inr (the dbid), s\<lparr>dbInstallId := dbid\<rparr>)
             else await (AsyncStorage_setItem c installIdKey (randomUUID c))
                    (\<lambda>_ s. (Inr (randomUUID c), s\<lparr>dbInstallId := Some (randomUUID c)\<rparr>)) s) s)"

text \<open>
  \<^verbatim>\<open>getMeta\<close>: the cached record, or the stored one, parsed and cached; \<^verbatim>\<open>None\<close> is the
  \<^verbatim>\<open>undefined\<close> of a store that has no metadata. A stored text that parses to a falsy
  value leaves every later test of the cache as it was, like no metadata at all.
\<close>

definition getMeta :: "collaborators \<Rightarrow> DBInfo option action" where
  "getMeta c s =
     (case dbMetaCache s of
        Some m \<Rightarrow> (Inr (Some m), s)
      | None \<Rightarrow>
          await (AsyncStorage_getItem c metaKey) (\<lambda>jsonValue s.
            case jsonValue of
              None \<Rightarrow> (Inr None, s)
            | Some j \<Rightarrow>
                if j = [] then (Inr None, s)
                else (case JSON_parse c j of
                        None \<Rightarrow> (Inl (SyntaxError j), s)
                      | Some v \<Rightarrow>
                          if \<not> truthy v then (Inr None, s)
                          else (case DBInfo_of_jsval v of
                                  None \<Rightarrow> (Inl OutsideModel, s)
                                | Some m \<Rightarrow> (Inr (Some m), s\<lparr>dbMetaCache := Some m\<rparr>)))) s)"

definition putMeta :: "collaborators \<Rightarrow> PartialDBInfo \<Rightarrow> unit action" where
  "putMeta c m s =
     (let meta = (case dbMetaCache s of
                    None \<Rightarrow> assignDBInfo (defaultMeta s) m
                  | Some cur \<Rightarrow> assignDBInfo cur m)
      in AsyncStorage_setItem c metaKey (JSON_stringify c (jsval_of_DBInfo meta))
           (s\<lparr>dbMetaCache := Some meta\<rparr>))"

text \<open>The private \<^verbatim>\<open>#init\<close>.\<close>

definition init :: "collaborators \<Rightarrow> unit action" where
  "init c s =
     await (getMeta c) (\<lambda>m s.
       await (case m of None \<Rightarrow> putMeta c (asPartial (defaultMeta s)) | Some _ \<Rightarrow> (\<lambda>s. (Inr (), s)))
         (\<lambda>_ s. (Inr (), s\<lparr>dbCache := Some Map.empty\<rparr>)) s) s"

text \<open>The guard \<^verbatim>\<open>if (!this.#dbCache) await this.#init()\<close> of every data operation.\<close>

definition ensure_init :: "collaborators \<Rightarrow> unit action" where
  "ensure_init c s = (case dbCache s of None \<Rightarrow> init c s | Some _ \<Rightarrow> (Inr (), s))"

text \<open>\<^verbatim>\<open>#makeUserKey\<close>: reading \<^verbatim>\<open>currUser\<close> of absent metadata is a type error.\<close>

definition makeUserKey :: "collaborators \<Rightarrow> string \<Rightarrow> string action" where
  "makeUserKey c k s =
     await (getMeta c) (\<lambda>m s.
       case m of None \<Rightarrow> (Inl TypeError, s) | Some meta \<Rightarrow> (Inr (currUser meta @ '':'' @ k), s)) s"


text \<open>\<^verbatim>\<open>put\<close> caches the object it is given, not a copy, and writes its text.\<close>

definition put :: "collaborators \<Rightarrow> string \<Rightarrow> entry \<Rightarrow> unit action" where
  "put c k v s =
     (if k = [] \<or> \<not> entry_truthy v then (Inl (InvalidArgument k), s)
      else await (ensure_init c) (\<lambda>_. await (makeUserKey c k) (\<lambda>userKey s.
             case dbCache s of
               None \<Rightarrow> (Inl TypeError, s)
             | Some cache \<Rightarrow>
                 AsyncStorage_setItem c userKey (JSON_stringify c (entry_content s v))
                   (s\<lparr>dbCache := Some (cache(userKey \<mapsto> v))\<rparr>))) s)"

text \<open>
  \<^verbatim>\<open>get\<close> also returns what it writes to the console. Only the read of the entry and its
  parse are inside the \<^verbatim>\<open>try\<close>; the initialisation and the key are resolved before it.
\<close>

definition get :: "collaborators \<Rightarrow> string \<Rightarrow> KeyValueDB \<Rightarrow> (error + entry) \<times> event list \<times> KeyValueDB" where
  "get c k s =
     (if k = [] then (Inl (InvalidArgument k), [], s)
      else case await (ensure_init c) (\<lambda>_. makeUserKey c k) s of
        (Inl e, s1) \<Rightarrow> (Inl e, [], s1)
      | (Inr userKey, s1) \<Rightarrow>
         (case dbCache s1 of
            None \<Rightarrow> (Inl TypeError, [], s1)
          | Some cache \<Rightarrow>
             (case cache userKey of
                Some v \<Rightarrow> (Inr v, [], s1)
              | None \<Rightarrow>
                 (case AsyncStorage_getItem c userKey s1 of
                    (Inl e, s2) \<Rightarrow> (Inr (Own Undefined), [ConsoleErrorExn e], s2)
                  | (Inr None, s2) \<Rightarrow> (Inr (Own Undefined), [], s2)
                  | (Inr (Some j), s2) \<Rightarrow>
                      if j = [] then (Inr (Own Undefined), [], s2)
                      else (case JSON_parse c j of
                              None \<Rightarrow> (Inr (Own Undefined), [ConsoleErrorExn (SyntaxError j)], s2)
                            | Some v \<Rightarrow>
                                (Inr (Own v), [], s2\<lparr>dbCache := Some (cache(userKey \<mapsto> Own v))\<rparr>))))))"


definition del :: "collaborators \<Rightarrow> string \<Rightarrow> unit action" where
  "del c k s =
     (if k = [] then (Inl (InvalidArgument k), s)
      else await (ensure_init c) (\<lambda>_. await (makeUserKey c k) (\<lambda>userKey s.
             case dbCache s of
               None \<Rightarrow> (Inl TypeError, s)
             | Some cache \<Rightarrow>
                 AsyncStorage_removeItem c userKey (s\<lparr>dbCache := Some (cache(userKey := None))\<rparr>))) s)"


subsection \<open>\<^verbatim>\<open>update\<close> and \<^verbatim>\<open>Object.assign\<close>\<close>

text \<open>Setting one property: an existing key keeps its place, a new key goes last.\<close>

fun set_prop :: "string \<Rightarrow> jsval \<Rightarrow> (string \<times> jsval) list \<Rightarrow> (string \<times> jsval) list" where
  "set_prop k v [] = [(k, v)]"
| "set_prop k v (p # ps) = (if fst p = k then (k, v) # ps else p # set_prop k v ps)"

text \<open>
  The own enumerable properties of the source of an assignment: those of an object, the
  indexed elements of an array or of a string, none for the other primitives.
\<close>

fun own_props :: "jsval \<Rightarrow> (string \<times> jsval) list" where
  "own_props (Obj qs) = qs"
| "own_props (Arr xs) = zip (map natToString [0..<length xs]) xs"
| "own_props (Str t) = zip (map natToString [0..<length t]) (map (\<lambda>ch. Str [ch]) t)"
| "own_props _ = []"

text \<open>
  \<^verbatim>\<open>Object.assign(target, source)\<close>, as the new content of the target object: it throws on
  a target that is \<^verbatim>\<open>null\<close> or \<^verbatim>\<open>undefined\<close>, and copies the properties of the source
  one by one onto a plain object. Other targets are not values of the declared type
  \<^verbatim>\<open>DBShape\<close>.
\<close>

fun Object_assign :: "jsval \<Rightarrow> jsval \<Rightarrow> error + jsval" where
  "Object_assign Undefined src = Inl TypeError"
| "Object_assign Null src = Inl TypeError"
| "Object_assign (Obj ps) src = Inr (Obj (foldl (\<lambda>acc (k, v). set_prop k v acc) ps (own_props src)))"
| "Object_assign _ src = Inl OutsideModel"

text \<open>
  \<^verbatim>\<open>Object.assign(meta, source)\<close> on the metadata object: the two fields of \<^verbatim>\<open>DBInfo\<close>
  are overwritten in place. A source that gives the object another property, or a field of
  another type, takes it out of the declared type.
\<close>

fun assign_metadata :: "DBInfo \<Rightarrow> (string \<times> jsval) list \<Rightarrow> DBInfo option" where
  "assign_metadata meta [] = Some meta"
| "assign_metadata meta ((k, v) # ps) =
     (if k = ''lastMigrationVersion''
      then (case v of Num n \<Rightarrow> assign_metadata (meta\<lparr>lastMigrationVersion := n\<rparr>) ps | _ \<Rightarrow> None)
      else if k = ''currUser''
      then (case v of Str u \<Rightarrow> assign_metadata (meta\<lparr>currUser := u\<rparr>) ps | _ \<Rightarrow> None)
      else None)"

text \<open>
  \<^verbatim>\<open>update\<close> merges into the object the cache holds under the key, in place: an entry of
  its own gets the merged content, and when the entry is the metadata object it is
  \<^verbatim>\<open>#dbMetaCache\<close> that changes. The text written is that of the source alone.
\<close>

definition update :: "collaborators \<Rightarrow> string \<Rightarrow> entry \<Rightarrow> unit action" where
  "update c k v s =
     (if k = [] \<or> \<not> entry_truthy v then (Inl (InvalidArgument k), s)
      else await (ensure_init c) (\<lambda>_. await (makeUserKey c k) (\<lambda>userKey s.
             case dbCache s of
               None \<Rightarrow> (Inl TypeError, s)
             | Some cache \<Rightarrow>
                 (case (case cache userKey of None \<Rightarrow> Own (Obj []) | Some t \<Rightarrow> t) of
                    Own target \<Rightarrow>
                      (case Object_assign target (entry_content s v) of
                         Inl e \<Rightarrow> (Inl e, s\<lparr>dbCache := Some (cache(userKey \<mapsto> Own target))\<rparr>)
                       | Inr merged \<Rightarrow>
                           AsyncStorage_setItem c userKey (JSON_stringify c (entry_content s v))
                             (s\<lparr>dbCache := Some (cache(userKey \<mapsto> Own merged))\<rparr>))
                  | MetaObject \<Rightarrow>
                      (case dbMetaCache s of
                         None \<Rightarrow> (Inl OutsideModel, s)
                       | Some meta \<Rightarrow>
                           (case assign_metadata meta (own_props (entry_content s v)) of
                              None \<Rightarrow> (Inl OutsideModel, s)
                            | Some meta' \<Rightarrow>
                                AsyncStorage_setItem c userKey
                                  (JSON_stringify c (entry_content (s\<lparr>dbMetaCache := Some meta'\<rparr>) v))
                                  (s\<lparr>dbMetaCache := Some meta'\<rparr>)))))) s)"

definition getCache :: "KeyValueDB \<Rightarrow> (string \<rightharpoonup> entry) option" where
  "getCache s = dbCache s"

definition purgeCache :: "KeyValueDB \<Rightarrow> KeyValueDB" where
  "purgeCache s = s\<lparr>dbCache := Some Map.empty\<rparr>"

subsection \<open>The migration runner\<close>

text \<open>
  A migration function has a name and, called with the store, changes it and resolves to a
  boolean or throws. The table is the object \<^verbatim>\<open>{version: [functions]}\<close>: its own keys, which
  are strings, in the order \<^verbatim>\<open>Object.keys\<close> lists them.
\<close>

record MigrationFunction =
  name :: string
  call :: "KeyValueDB \<Rightarrow> (error + bool) \<times> KeyValueDB"

type_synonym MigrationTable = "(string \<times> MigrationFunction list) list"

record validation =
  passed :: bool
  sortedVersions :: "jsnumber list"

text \<open>
  \<^verbatim>\<open>validateMigrationVersionNumbers\<close>. \<^verbatim>\<open>vArray.find((v) => v <= 0)\<close> returns the first
  element that is not positive, and the \<^verbatim>\<open>if\<close> tests that element for truthiness. Nothing
  in the \<^verbatim>\<open>try\<close> block throws, so the \<^verbatim>\<open>catch\<close> branch is never taken.
\<close>

definition validateMigrationVersionNumbers :: "string list \<Rightarrow> validation \<times> event list" where
  "validateMigrationVersionNumbers allVersions =
     (let vArray = map parseInt allVersions
      in if (case List.find (\<lambda>v. num_le v (Fin 0)) vArray of None \<Rightarrow> False | Some v \<Rightarrow> num_truthy v)
         then (\<lparr> passed = False, sortedVersions = [] \<rparr>,
               [ConsoleError ''Migration versions must be positive integers''])
         else (\<lparr> passed = True, sortedVersions = array_sort vArray \<rparr>, []))"

definition returned_false :: "MigrationFunction \<Rightarrow> event" where
  "returned_false f =
     ConsoleError (''Migration function '' @ name f @ '' returned false. Migration might have failed'')"

text \<open>The inner loop: the functions of one version, in list order.\<close>

fun run_functions :: "MigrationFunction list \<Rightarrow> KeyValueDB \<Rightarrow> (error + unit) \<times> event list \<times> KeyValueDB" where
  "run_functions [] s = (Inr (), [], s)"
| "run_functions (f # fs) s =
     (case call f s of
        (Inl e, s') \<Rightarrow> (Inl e, [Called (name f)], s')
      | (Inr ok, s') \<Rightarrow>
          (case run_functions fs s' of
             (r, evs, s'') \<Rightarrow>
               (r, Called (name f) # (if ok then [] else [returned_false f]) @ evs, s'')))"

text \<open>
  \<^verbatim>\<open>storedMeta\<close> is the very object held in \<^verbatim>\<open>#dbMetaCache\<close>, which \<^verbatim>\<open>putMeta\<close> changes
  in place: what a migration function does to the metadata is seen by the next test of
  \<^verbatim>\<open>storedMeta.lastMigrationVersion\<close>.
\<close>

definition alias_of :: "DBInfo \<Rightarrow> KeyValueDB \<Rightarrow> DBInfo" where
  "alias_of storedMeta s = (case dbMetaCache s of None \<Rightarrow> storedMeta | Some m \<Rightarrow> m)"

text \<open>
  The outer loop over \<^verbatim>\<open>sortedVersions\<close>, with the variable \<^verbatim>\<open>lmv\<close>. A version whose key
  is not in the table gives \<^verbatim>\<open>undefined\<close>, and iterating over it throws.
\<close>

fun migrate_versions ::
  "MigrationTable \<Rightarrow> DBInfo \<Rightarrow> jsnumber list \<Rightarrow> jsnumber \<Rightarrow> KeyValueDB
     \<Rightarrow> (error + jsnumber) \<times> event list \<times> KeyValueDB" where
  "migrate_versions tbl storedMeta [] lmv s = (Inr lmv, [], s)"
| "migrate_versions tbl storedMeta (v # vs) lmv s =
     (if num_ge (Fin (lastMigrationVersion storedMeta)) v
      then migrate_versions tbl storedMeta vs lmv s
      else case map_of tbl (NumberToString v) of
             None \<Rightarrow> (Inl TypeError, [], s)
           | Some fs \<Rightarrow>
              (case run_functions fs s of
                 (Inl e, evs, s') \<Rightarrow> (Inl e, evs, s')
               | (Inr _, evs, s') \<Rightarrow>
                  (case migrate_versions tbl (alias_of storedMeta s') vs v s' of
                     (r, evs', s'') \<Rightarrow> (r, evs @ evs', s''))))"

text \<open>
  \<^verbatim>\<open>migrate\<close> never throws: the whole body is inside one \<^verbatim>\<open>try\<close>. The argument is
  \<^verbatim>\<open>None\<close> for a falsy table.
\<close>

definition migrate ::
  "collaborators \<Rightarrow> MigrationTable option \<Rightarrow> KeyValueDB \<Rightarrow> bool \<times> event list \<times> KeyValueDB" where
  "migrate c migrationFunctionTable s =
     (case migrationFunctionTable of
        None \<Rightarrow> (False, [ConsoleError ''Migration function table must be non-empty''], s)
      | Some tbl \<Rightarrow>
         (case getMeta c s of
            (Inl e, s1) \<Rightarrow> (False, [ConsoleErrorExn e], s1)
          | (Inr None, s1) \<Rightarrow> (False, [ConsoleInfo ''No database exists. Skipping migration.''], s1)
          | (Inr (Some storedMeta), s1) \<Rightarrow>
             (case validateMigrationVersionNumbers (map fst tbl) of
                (res, evs0) \<Rightarrow>
                  if \<not> passed res then (False, evs0, s1)
                  else
                    (let evs1 = (if sortedVersions res = []
                                 then [ConsoleInfo ''Empty migration function table. Skipping migration'']
                                 else [])
                     in case migrate_versions tbl storedMeta (sortedVersions res) (Fin 0) s1 of
                          (Inl e, evs2, s2) \<Rightarrow> (False, evs0 @ evs1 @ evs2 @ [ConsoleErrorExn e], s2)
                        | (Inr lmv, evs2, s2) \<Rightarrow>
                           (case lmv of
                              NaN \<Rightarrow> (True, evs0 @ evs1 @ evs2, s2)
                            | Fin n \<Rightarrow>
                               if n = 0 then (True, evs0 @ evs1 @ evs2, s2)
                               else (case putMeta c \<lparr> lastMigrationVersion_opt = Some n, currUser_opt = None \<rparr> s2 of
                                       (Inl e, s3) \<Rightarrow> (False, evs0 @ evs1 @ evs2 @ [ConsoleErrorExn e], s3)
                                     | (Inr _, s3) \<Rightarrow> (True, evs0 @ evs1 @ evs2, s3)))))))"

subsection \<open>Sequences of public operations\<close>

text \<open>The public methods of the class, and the state each call leaves.\<close>

datatype operation =
    GetInstallId
  | GetMeta
  | PutMeta PartialDBInfo
  | Put string entry
  | Get string
  | CacheGet string
  | Del string
  | Update string entry
  | Migrate "MigrationTable option"
  | GetCache
  | PurgeCache

fun exec :: "collaborators \<Rightarrow> operation \<Rightarrow> KeyValueDB \<Rightarrow> KeyValueDB" where
  "exec c GetInstallId s = snd (getInstallId c s)"
| "exec c GetMeta s = snd (getMeta c s)"
| "exec c (PutMeta m) s = snd (putMeta c m s)"
| "exec c (Put k v) s = snd (put c k v s)"
| "exec c (Get k) s = snd (snd (get c k s))"
| "exec c (CacheGet k) s = s"
| "exec c (Del k) s = snd (del c k s)"
| "exec c (Update k v) s = snd (update c k v s)"
| "exec c (Migrate tbl) s = snd (snd (migrate c tbl s))"
| "exec c GetCache s = s"
| "exec c PurgeCache s = purgeCache s"

fun exec_all :: "collaborators \<Rightarrow> operation list \<Rightarrow> KeyValueDB \<Rightarrow> KeyValueDB" where
  "exec_all c [] s = s"
| "exec_all c (x # xs) s = exec_all c xs (exec c x s)"

section \<open>Notions used to state the properties\<close>

text \<open>
  A key of a valid migration table is the property key of a positive integer: it parses
  to a positive \<open>n\<close>, and \<open>n\<close> turns back into that very key. The keys of an object are
  distinct.
\<close>

definition positive_integer_key :: "string \<Rightarrow> bool" where
  "positive_integer_key k =
     (case parseInt k of NaN \<Rightarrow> False | Fin n \<Rightarrow> 0 < n \<and> NumberToString (Fin n) = k)"

definition valid_table :: "MigrationTable \<Rightarrow> bool" where
  "valid_table tbl = (distinct (map fst tbl) \<and> list_all positive_integer_key (map fst tbl))"

definition key_version :: "string \<Rightarrow> int" where
  "key_version k = (case parseInt k of NaN \<Rightarrow> 0 | Fin n \<Rightarrow> n)"




definition table_functions :: "MigrationTable \<Rightarrow> MigrationFunction list" where
  "table_functions tbl = concat (map snd tbl)"

text \<open>The names of the migration functions a run invoked, in order.\<close>

definition calls :: "event list \<Rightarrow> string list" where
  "calls evs = concat (map (\<lambda>e. case e of Called n \<Rightarrow> [n] | _ \<Rightarrow> []) evs)"

text \<open>The version \<^verbatim>\<open>getMeta\<close> reports, if the store has metadata.\<close>

definition version_of :: "KeyValueDB \<Rightarrow> int option" where
  "version_of s = map_option lastMigrationVersion (dbMetaCache s)"







text \<open>
  The persisted metadata. \<open>persisted c s p\<close>: the storage holds, under the metadata key, the
  text of the record \<open>p\<close>. \<open>readable c p\<close>: the codec reads that text back.
  \<open>persisted_version\<close> is the version persisted as an observer sees it: the one a new
  instance over the same storage reports.
\<close>

definition persisted :: "collaborators \<Rightarrow> KeyValueDB \<Rightarrow> DBInfo \<Rightarrow> bool" where
  "persisted c s p = (AsyncStorage s metaKey = Some (JSON_stringify c (jsval_of_DBInfo p)))"

definition readable :: "collaborators \<Rightarrow> DBInfo \<Rightarrow> bool" where
  "readable c p =
     (JSON_stringify c (jsval_of_DBInfo p) \<noteq> []
      \<and> JSON_parse c (JSON_stringify c (jsval_of_DBInfo p)) = Some (jsval_of_DBInfo p))"

definition reopened :: "KeyValueDB \<Rightarrow> KeyValueDB" where
  "reopened s = new_KeyValueDB (defaultMeta s) (AsyncStorage s)"

definition persisted_version :: "collaborators \<Rightarrow> KeyValueDB \<Rightarrow> int option" where
  "persisted_version c s = version_of (snd (getMeta c (reopened s)))"

text \<open>No entry of the cache is the metadata object.\<close>

definition no_alias :: "KeyValueDB \<Rightarrow> bool" where
  "no_alias s = (case dbCache s of None \<Rightarrow> True | Some cache \<Rightarrow> \<forall>k. cache k \<noteq> Some MetaObject)"

text \<open>
  A store in step with its storage. Either nothing is stored under the metadata key yet
  (\<open>None\<close>); or the storage holds the record \<open>p\<close> and the cached metadata, if there is any,
  is not behind it (if there is none, the text of \<open>p\<close> can be read back). In both cases no
  entry of the cache is the metadata object.
\<close>

definition in_step :: "collaborators \<Rightarrow> KeyValueDB \<Rightarrow> DBInfo option \<Rightarrow> bool" where
  "in_step c s po =
     (no_alias s
      \<and> (case po of
            None \<Rightarrow> AsyncStorage s metaKey = None
          | Some p \<Rightarrow>
              persisted c s p
              \<and> (case dbMetaCache s of
                    None \<Rightarrow> readable c p
                  | Some m \<Rightarrow> lastMigrationVersion p \<le> lastMigrationVersion m)))"

text \<open>
  The stored record \<open>po'\<close> is not behind \<open>po\<close>: where a record was stored, one still is, and
  its version is not lower.
\<close>

definition not_behind :: "DBInfo option \<Rightarrow> DBInfo option \<Rightarrow> bool" where
  "not_behind po po' =
     (case po of
        None \<Rightarrow> True
      | Some p \<Rightarrow> (case po' of None \<Rightarrow> False | Some p' \<Rightarrow> lastMigrationVersion p \<le> lastMigrationVersion p'))"

text \<open>
  A migration function that leaves the version to the runner: on a store that has metadata
  it keeps the cached version, writes nothing under the metadata key but the cached record
  (as \<^verbatim>\<open>putMeta\<close> does), and does not make the metadata object an entry of the cache.
\<close>

definition steady :: "collaborators \<Rightarrow> MigrationFunction \<Rightarrow> bool" where
  "steady c f =
     (\<forall>s. dbMetaCache s \<noteq> None \<longrightarrow>
        version_of (snd (call f s)) = version_of s
      \<and> (AsyncStorage (snd (call f s)) metaKey = AsyncStorage s metaKey
         \<or> AsyncStorage (snd (call f s)) metaKey
             = map_option (\<lambda>m. JSON_stringify c (jsval_of_DBInfo m)) (dbMetaCache (snd (call f s))))
      \<and> (no_alias s \<longrightarrow> no_alias (snd (call f s))))"

text \<open>
  The states a run of steady migration functions goes through: the version \<open>N\<close> is cached,
  and the store is in step with its storage, whose record is not behind the one the run
  started from.
\<close>

definition runner_state :: "collaborators \<Rightarrow> DBInfo option \<Rightarrow> int \<Rightarrow> KeyValueDB \<Rightarrow> bool" where
  "runner_state c po0 N s =
     (\<exists>m po. dbMetaCache s = Some m \<and> lastMigrationVersion m = N \<and> in_step c s po \<and> not_behind po0 po)"

text \<open>
  The operations of a sequence that leave the version to the migration runner: no
  \<^verbatim>\<open>putMeta\<close>, no \<^verbatim>\<open>put\<close> of the metadata object, and migration functions that are
  steady.
\<close>

fun admissible :: "collaborators \<Rightarrow> operation \<Rightarrow> bool" where
  "admissible c (PutMeta m) = False"
| "admissible c (Put k v) = (v \<noteq> MetaObject)"
| "admissible c (Migrate (Some tbl)) = list_all (steady c) (table_functions tbl)"
| "admissible c _ = True"

fun is_migrate :: "operation \<Rightarrow> bool" where
  "is_migrate (Migrate tbl) = True"
| "is_migrate _ = False"

text \<open>The object \<^verbatim>\<open>update\<close> merges into: the cached entry, or a new empty object.\<close>

definition cached_or_empty :: "KeyValueDB \<Rightarrow> string \<Rightarrow> entry" where
  "cached_or_empty s userKey =
     (case dbCache s of
        None \<Rightarrow> Own (Obj [])
      | Some cache \<Rightarrow> (case cache userKey of None \<Rightarrow> Own (Obj []) | Some t \<Rightarrow> t))"


section \<open>Reference collaborators and test fixtures\<close>

text \<open>
  A JSON codec for plain data (compact output; strings with the escapes of the quote, the
  backslash, the line feed and the tab), a storage that never rejects, and the fixtures
  of \<^verbatim>\<open>kvdb.test.ts\<close>. They instantiate the collaborators where a property is run on
  concrete input.
\<close>

subsection \<open>A JSON codec\<close>

definition escape_char :: "char \<Rightarrow> string" where
  "escape_char ch =
     (if ch = CHR 0x22 then [CHR 0x5C, CHR 0x22]
      else if ch = CHR 0x5C then [CHR 0x5C, CHR 0x5C]
      else if ch = CHR 0x0A then [CHR 0x5C, CHR ''n'']
      else if ch = CHR 0x09 then [CHR 0x5C, CHR ''t'']
      else [ch])"

definition quote :: "string \<Rightarrow> string" where
  "quote t = CHR 0x22 # concat (map escape_char t) @ [CHR 0x22]"

fun join :: "string list \<Rightarrow> string" where
  "join [] = []"
| "join [x] = x"
| "join (x # y # ys) = x @ CHR '','' # join (y # ys)"

fun json_text :: "jsval \<Rightarrow> string" where
  "json_text Undefined = ''null''"
| "json_text Null = ''null''"
| "json_text (Bool b) = (if b then ''true'' else ''false'')"
| "json_text (Num n) = NumberToString (Fin n)"
| "json_text (Str t) = quote t"
| "json_text (Arr xs) = CHR ''['' # join (map json_text xs) @ '']''"
| "json_text (Obj ps) =
     CHR ''{'' # join (map (\<lambda>(k, v). quote k @ CHR '':'' # json_text v) (filter (\<lambda>(k, v). v \<noteq> Undefined) ps)) @ ''}''"

fun read_string :: "string \<Rightarrow> (string \<times> string) option" where
  "read_string [] = None"
| "read_string (ch # cs) =
     (if ch = CHR 0x22 then Some ([], cs)
      else if ch = CHR 0x5C then
        (case cs of
           [] \<Rightarrow> None
         | d # ds \<Rightarrow>
            (let e = (if d = CHR ''n'' then Some (CHR 0x0A) else if d = CHR ''t'' then Some (CHR 0x09)
                      else if d = CHR 0x22 \<or> d = CHR 0x5C \<or> d = CHR ''/'' then Some d else None)
             in case e of None \<Rightarrow> None
                | Some x \<Rightarrow> (case read_string ds of None \<Rightarrow> None | Some (t, r) \<Rightarrow> Some (x # t, r))))
      else if (of_char ch :: nat) < 32 then None
      else (case read_string cs of None \<Rightarrow> None | Some (t, r) \<Rightarrow> Some (ch # t, r)))"

text \<open>
  The reader descends with fuel, which bounds the nesting and the number of elements; a
  text that exhausts it is rejected like a malformed one.
\<close>

fun read_value :: "nat \<Rightarrow> string \<Rightarrow> (jsval \<times> string) option"
and read_elements :: "nat \<Rightarrow> string \<Rightarrow> (jsval list \<times> string) option"
and read_members :: "nat \<Rightarrow> string \<Rightarrow> ((string \<times> jsval) list \<times> string) option" where
  "read_value 0 cs = None"
| "read_value (Suc fuel) cs =
     (case dropWhile isWhiteSpace cs of
        [] \<Rightarrow> None
      | ch # r \<Rightarrow>
         if ch = CHR 0x22 then (case read_string r of None \<Rightarrow> None | Some (t, r') \<Rightarrow> Some (Str t, r'))
         else if ch = CHR ''['' then
           (case dropWhile isWhiteSpace r of
              [] \<Rightarrow> None
            | d # r' \<Rightarrow> if d = CHR '']'' then Some (Arr [], r')
                else (case read_elements fuel r of None \<Rightarrow> None | Some (xs, r'') \<Rightarrow> Some (Arr xs, r'')))
         else if ch = CHR ''{'' then
           (case dropWhile isWhiteSpace r of
              [] \<Rightarrow> None
            | d # r' \<Rightarrow> if d = CHR ''}'' then Some (Obj [], r')
                else (case read_members fuel r of None \<Rightarrow> None | Some (ps, r'') \<Rightarrow> Some (Obj ps, r'')))
         else if take 4 (ch # r) = ''true'' then Some (Bool True, drop 3 r)
         else if take 5 (ch # r) = ''false'' then Some (Bool False, drop 4 r)
         else if take 4 (ch # r) = ''null'' then Some (Null, drop 3 r)
         else if ch = CHR ''-'' then
           (let Z = takeWhile isDigit r
            in if Z = [] then None else Some (Num (- int (digitsValue Z)), dropWhile isDigit r))
         else if isDigit ch then
           Some (Num (int (digitsValue (takeWhile isDigit (ch # r)))), dropWhile isDigit r)
         else None)"
| "read_elements 0 cs = None"
| "read_elements (Suc fuel) cs =
     (case read_value fuel cs of
        None \<Rightarrow> None
      | Some (x, r) \<Rightarrow>
         (case dropWhile isWhiteSpace r of
            [] \<Rightarrow> None
          | d # r' \<Rightarrow>
             if d = CHR '']'' then Some ([x], r')
             else if d = CHR '','' then
               (case read_elements fuel r' of None \<Rightarrow> None | Some (xs, r'') \<Rightarrow> Some (x # xs, r''))
             else None))"
| "read_members 0 cs = None"
| "read_members (Suc fuel) cs =
     (case dropWhile isWhiteSpace cs of
        [] \<Rightarrow> None
      | q # r0 \<Rightarrow>
         if q \<noteq> CHR 0x22 then None
         else (case read_string r0 of
                 None \<Rightarrow> None
               | Some (k, r1) \<Rightarrow>
                  (case dropWhile isWhiteSpace r1 of
                     [] \<Rightarrow> None
                   | col # r2 \<Rightarrow>
                      if col \<noteq> CHR '':'' then None
                      else (case read_value fuel r2 of
                              None \<Rightarrow> None
                            | Some (v, r3) \<Rightarrow>
                               (case dropWhile isWhiteSpace r3 of
                                  [] \<Rightarrow> None
                                | d # r4 \<Rightarrow>
                                   if d = CHR ''}'' then Some ([(k, v)], r4)
                                   else if d = CHR '','' then
                                     (case read_members fuel r4 of
                                        None \<Rightarrow> None
                                      | Some (ps, r5) \<Rightarrow> Some ((k, v) # ps, r5))
                                   else None)))))"

definition json_read :: "string \<Rightarrow> jsval option" where
  "json_read t =
     (case read_value (Suc (length t)) t of
        None \<Rightarrow> None
      | Some (v, r) \<Rightarrow> if dropWhile isWhiteSpace r = [] then Some v else None)"

subsection \<open>Stores, values and migration tables\<close>

definition reference_collaborators :: collaborators where
  "reference_collaborators =
     \<lparr> JSON_stringify = json_text, JSON_parse = json_read,
       getItem_rejects = (\<lambda>key. False), setItem_rejects = (\<lambda>key. False),
       removeItem_rejects = (\<lambda>key. False),
       randomUUID = ''123e4567-e89b-12d3-a456-426614174000'' \<rparr>"

definition guestMeta :: DBInfo where
  "guestMeta = \<lparr> lastMigrationVersion = 0, currUser = ''guest'' \<rparr>"

definition fresh_db :: KeyValueDB where
  "fresh_db = new_KeyValueDB guestMeta Map.empty"

text \<open>The store after its first use.\<close>

definition guest_db :: KeyValueDB where
  "guest_db = snd (ensure_init reference_collaborators fresh_db)"

definition ver3 :: jsval where
  "ver3 = Obj [(''ver'', Num 3)]"

definition bigobj :: jsval where
  "bigobj = Obj [(''name'', Str ''akshay''), (''lastName'', Str ''dua''), (''email'', Str ''akshay@gmail.com'')]"

definition candy :: jsval where
  "candy = Obj [(''name'', Str ''candy'')]"

definition migration1 :: MigrationFunction where
  "migration1 = \<lparr> name = ''migration1'', call = (\<lambda>s. (Inr True, s)) \<rparr>"

definition migration2 :: MigrationFunction where
  "migration2 = \<lparr> name = ''migration2'', call = (\<lambda>s. (Inr True, s)) \<rparr>"

definition migration3 :: MigrationFunction where
  "migration3 = \<lparr> name = ''migration3'', call = (\<lambda>s. (Inr True, s)) \<rparr>"


definition migTable1 :: MigrationTable where
  "migTable1 = [(''1'', [migration1, migration2])]"

definition migTable2 :: MigrationTable where
  "migTable2 = [(''1'', [migration1, migration2]), (''2'', [migration3])]"











text \<open>A storage that rejects the read of one entry, and a store with a corrupt entry.\<close>

definition flaky_collaborators :: collaborators where
  "flaky_collaborators = reference_collaborators\<lparr> getItem_rejects := (\<lambda>key. key = ''guest:flaky'') \<rparr>"

definition corrupt_db :: KeyValueDB where
  "corrupt_db = guest_db\<lparr> AsyncStorage := (AsyncStorage guest_db)(''guest:corrupt'' \<mapsto> ''{broken'') \<rparr>"

text \<open>
  The store after a first migration to version 1, the store after a migration to version
  2, and a store holding the big object.
\<close>

definition db_v1 :: KeyValueDB where
  "db_v1 = snd (snd (migrate reference_collaborators (Some migTable1) guest_db))"

definition db_v2 :: KeyValueDB where
  "db_v2 = snd (snd (migrate reference_collaborators (Some migTable2) guest_db))"

definition bigobj_db :: KeyValueDB where
  "bigobj_db = snd (put reference_collaborators ''bigobj'' (Own bigobj) fresh_db)"

text \<open>
  The fragment \<^verbatim>\<open>{lastMigrationVersion: 0}\<close>; and the store \<^verbatim>\<open>guest_db\<close> when another
  instance over the same storage has written version 10.
\<close>

definition version0 :: jsval where
  "version0 = Obj [(''lastMigrationVersion'', Num 0)]"

definition stale_db :: KeyValueDB where
  "stale_db =
     guest_db\<lparr> AsyncStorage := (AsyncStorage guest_db)(metaKey \<mapsto>
        json_text (jsval_of_DBInfo (guestMeta\<lparr>lastMigrationVersion := 10\<rparr>))) \<rparr>"

section \<open>Basic facts about the operations\<close>

lemma entry_content_simps [simp]:
  "entry_content (s\<lparr>dbCache := x\<rparr>) e = entry_content s e"
  "entry_content (s\<lparr>AsyncStorage := y\<rparr>) e = entry_content s e"
  "entry_content s (Own v) = v"
  by (simp_all add: entry_content_def split: entry.splits)

lemma getMeta_cached: "dbMetaCache s = Some m \<Longrightarrow> getMeta c s = (Inr (Some m), s)"
  by (simp add: getMeta_def)

lemma makeUserKey_cached:
  "dbMetaCache s = Some m \<Longrightarrow> makeUserKey c k s = (Inr (currUser m @ '':'' @ k), s)"
  by (simp add: makeUserKey_def await_def getMeta_cached)

lemma getMeta_result:
  "getMeta c s = (r, s') \<Longrightarrow>
     AsyncStorage s' = AsyncStorage s \<and> dbCache s' = dbCache s \<and> defaultMeta s' = defaultMeta s \<and>
     dbInstallId s' = dbInstallId s \<and>
     (case r of Inr (Some m) \<Rightarrow> dbMetaCache s' = Some m
        | Inr None \<Rightarrow> dbMetaCache s' = None \<and> s' = s
        | Inl e \<Rightarrow> s' = s)"
  by (auto simp: getMeta_def await_def AsyncStorage_getItem_def
           split: option.splits if_splits sum.splits)

lemma init_success:
  "init c s = (Inr u, s') \<Longrightarrow> dbCache s' = Some Map.empty \<and> (\<exists>m. dbMetaCache s' = Some m)"
  by (auto simp: init_def await_def getMeta_def putMeta_def AsyncStorage_getItem_def
                 AsyncStorage_setItem_def Let_def
           split: option.splits if_splits sum.splits prod.splits)

lemma makeUserKey_success:
  "makeUserKey c k s = (Inr uk, s') \<Longrightarrow>
     \<exists>m. dbMetaCache s' = Some m \<and> uk = currUser m @ '':'' @ k \<and> dbCache s' = dbCache s \<and>
         AsyncStorage s' = AsyncStorage s"
  by (auto simp: makeUserKey_def await_def split: prod.splits sum.splits option.splits
           dest: getMeta_result)

lemma ensure_init_cache:
  "ensure_init c s = (Inr u, s') \<Longrightarrow> \<exists>cache. dbCache s' = Some cache"
  by (auto simp: ensure_init_def dest: init_success split: option.splits)

lemma put_success:
  assumes "put c k v s = (Inr u, s')"
  shows "\<exists>m cache. dbMetaCache s' = Some m \<and> dbCache s' = Some cache \<and>
           cache (currUser m @ '':'' @ k) = Some v \<and>
           AsyncStorage s' (currUser m @ '':'' @ k) = Some (JSON_stringify c (entry_content s' v)) \<and>
           k \<noteq> [] \<and> entry_truthy v"
proof -
  from assms have k: "k \<noteq> []" and v: "entry_truthy v"
    by (auto simp: put_def split: if_splits)
  from assms k v obtain s1 where s1: "ensure_init c s = (Inr (), s1)"
    by (auto simp: put_def await_def split: prod.splits sum.splits)
  from assms k v s1 obtain uk s2 where s2: "makeUserKey c k s1 = (Inr uk, s2)"
    by (auto simp: put_def await_def split: prod.splits sum.splits)
  from ensure_init_cache [OF s1] obtain cache1 where c1: "dbCache s1 = Some cache1" by blast
  from makeUserKey_success [OF s2] obtain m where
    m: "dbMetaCache s2 = Some m" "uk = currUser m @ '':'' @ k" "dbCache s2 = dbCache s1"
    by blast
  from assms k v s1 s2 c1 m have
    "AsyncStorage_setItem c uk (JSON_stringify c (entry_content s2 v)) (s2\<lparr>dbCache := Some (cache1(uk \<mapsto> v))\<rparr>)
       = (Inr u, s')"
    by (simp add: put_def await_def)
  then have "s' = s2\<lparr>dbCache := Some (cache1(uk \<mapsto> v)),
                     AsyncStorage := (AsyncStorage s2)(uk \<mapsto> JSON_stringify c (entry_content s2 v))\<rparr>"
    by (auto simp: AsyncStorage_setItem_def split: if_splits)
  with m k v show ?thesis by simp
qed

lemma prelude_initialized:
  "dbCache s = Some cache \<Longrightarrow> dbMetaCache s = Some m \<Longrightarrow>
     await (ensure_init c) (\<lambda>_. makeUserKey c k) s = (Inr (currUser m @ '':'' @ k), s)"
  by (simp add: await_def ensure_init_def makeUserKey_cached)

lemma get_cached:
  "k \<noteq> [] \<Longrightarrow> dbCache s = Some cache \<Longrightarrow> dbMetaCache s = Some m \<Longrightarrow>
     cache (currUser m @ '':'' @ k) = Some v \<Longrightarrow> get c k s = (Inr v, [], s)"
  by (simp add: get_def prelude_initialized)

lemma get_from_store:
  "k \<noteq> [] \<Longrightarrow> dbCache s = Some cache \<Longrightarrow> dbMetaCache s = Some m \<Longrightarrow>
     cache (currUser m @ '':'' @ k) = None \<Longrightarrow> \<not> getItem_rejects c (currUser m @ '':'' @ k) \<Longrightarrow>
     AsyncStorage s (currUser m @ '':'' @ k) = Some j \<Longrightarrow> j \<noteq> [] \<Longrightarrow> JSON_parse c j = Some v \<Longrightarrow>
     get c k s = (Inr (Own v), [], s\<lparr>dbCache := Some (cache(currUser m @ '':'' @ k \<mapsto> Own v))\<rparr>)"
  by (simp add: get_def prelude_initialized AsyncStorage_getItem_def)

text \<open>On a store that has its metadata cached, the data operations find it there.\<close>

lemma ensure_init_with_meta:
  "dbMetaCache s = Some m \<Longrightarrow>
     ensure_init c s = (Inr (), case dbCache s of None \<Rightarrow> s\<lparr>dbCache := Some Map.empty\<rparr> | Some _ \<Rightarrow> s)"
  by (simp add: ensure_init_def init_def await_def getMeta_cached split: option.splits)

lemma prelude_with_meta:
  "dbMetaCache s = Some m \<Longrightarrow>
     await (ensure_init c) (\<lambda>_. makeUserKey c k) s =
       (Inr (currUser m @ '':'' @ k), case dbCache s of None \<Rightarrow> s\<lparr>dbCache := Some Map.empty\<rparr> | Some _ \<Rightarrow> s)"
  by (simp add: await_def ensure_init_with_meta makeUserKey_cached split: option.splits)

lemma await_assoc_prelude:
  "await (ensure_init c) (\<lambda>_. await (makeUserKey c k) body) s =
     (case await (ensure_init c) (\<lambda>_. makeUserKey c k) s of
        (Inl e, s') \<Rightarrow> (Inl e, s') | (Inr uk, s') \<Rightarrow> body uk s')"
  by (simp add: await_def split: prod.splits sum.splits)


text \<open>\<^verbatim>\<open>Object.assign\<close> on plain objects is the shallow merge: a later property wins.\<close>

lemma map_of_set_prop: "map_of (set_prop k v ps) = (map_of ps)(k \<mapsto> v)"
  by (induction ps) (auto simp: fun_eq_iff)

lemma map_of_assign:
  "map_of (foldl (\<lambda>acc (k, v). set_prop k v acc) ps qs) = map_of ps ++ map_of (rev qs)"
proof (induction qs arbitrary: ps)
  case Nil
  then show ?case by simp
next
  case (Cons q qs)
  obtain k v where q: "q = (k, v)" by (cases q)
  have "map_of (set_prop k v ps) ++ map_of (rev qs) = map_of ps ++ ([k \<mapsto> v] ++ map_of (rev qs))"
    by (auto simp: map_of_set_prop fun_eq_iff map_add_def split: option.splits)
  with Cons q show ?case by simp
qed

lemma update_success:
  assumes "update c k p s = (Inr u, s')" and "no_alias s"
  shows "\<exists>m cache t merged. dbMetaCache s' = Some m \<and> dbCache s' = Some cache \<and>
           cached_or_empty s (currUser m @ '':'' @ k) = Own t \<and>
           Object_assign t (entry_content s' p) = Inr merged \<and>
           cache (currUser m @ '':'' @ k) = Some (Own merged) \<and>
           AsyncStorage s' (currUser m @ '':'' @ k) = Some (JSON_stringify c (entry_content s' p)) \<and>
           k \<noteq> []"
proof -
  from assms have k: "k \<noteq> []" and v: "entry_truthy p"
    by (auto simp: update_def split: if_splits)
  from assms k v obtain s1 where s1: "ensure_init c s = (Inr (), s1)"
    by (auto simp: update_def await_def split: prod.splits sum.splits)
  from assms k v s1 obtain uk s2 where s2: "makeUserKey c k s1 = (Inr uk, s2)"
    by (auto simp: update_def await_def split: prod.splits sum.splits)
  from ensure_init_cache [OF s1] obtain cache1 where c1: "dbCache s1 = Some cache1" by blast
  have c0: "cached_or_empty s uk = (case cache1 uk of None \<Rightarrow> Own (Obj []) | Some t \<Rightarrow> t)"
    using s1 c1
    by (auto simp: cached_or_empty_def ensure_init_def dest: init_success split: option.splits)
  have "cached_or_empty s uk \<noteq> MetaObject"
    using assms(2) by (auto simp: cached_or_empty_def no_alias_def split: option.splits)
  then obtain t where t: "cached_or_empty s uk = Own t"
    by (cases "cached_or_empty s uk") auto
  from makeUserKey_success [OF s2] obtain m where
    m: "dbMetaCache s2 = Some m" "uk = currUser m @ '':'' @ k" "dbCache s2 = dbCache s1"
    by blast
  from assms k v s1 s2 c1 m c0 t obtain merged where
    mg: "Object_assign t (entry_content s2 p) = Inr merged"
        "AsyncStorage_setItem c uk (JSON_stringify c (entry_content s2 p))
           (s2\<lparr>dbCache := Some (cache1(uk \<mapsto> Own merged))\<rparr>) = (Inr u, s')"
    by (auto simp: update_def await_def split: sum.splits)
  from mg(2) have "s' = s2\<lparr>dbCache := Some (cache1(uk \<mapsto> Own merged)),
                     AsyncStorage := (AsyncStorage s2)(uk \<mapsto> JSON_stringify c (entry_content s2 p))\<rparr>"
    by (auto simp: AsyncStorage_setItem_def split: if_splits)
  with m k mg(1) t show ?thesis by simp
qed

text \<open>
  When the entry under the key is the metadata object, \<^verbatim>\<open>update\<close> rewrites the cached
  metadata and leaves the stored metadata as it was.
\<close>

lemma update_metadata_entry:
  assumes "k \<noteq> []" "dbMetaCache s = Some m" "dbCache s = Some cache"
    and "cache (currUser m @ '':'' @ k) = Some MetaObject"
    and "assign_metadata m (own_props v) = Some m'"
    and "truthy v" "\<not> setItem_rejects c (currUser m @ '':'' @ k)"
  shows "update c k (Own v) s =
           (Inr (), s\<lparr> dbMetaCache := Some m',
                       AsyncStorage := (AsyncStorage s)(currUser m @ '':'' @ k \<mapsto> JSON_stringify c v) \<rparr>)"
  using assms
  by (simp add: update_def await_assoc_prelude prelude_with_meta AsyncStorage_setItem_def)

section \<open>Validation, sorting and the two loops of the migration runner\<close>

text \<open>Without \<^verbatim>\<open>NaN\<close> the sort of the model is the ascending sort.\<close>

lemma sort_insert_Fin: "sort_insert (Fin x) (map Fin ys) = map Fin (insort x ys)"
  by (induction ys) (auto simp: SortCompare_def)

lemma array_sort_Fin: "array_sort (map Fin xs) = map Fin (sort xs)"
  by (induction xs) (auto simp: array_sort_def sort_insert_Fin sort_key_def)

lemma positive_key_parse:
  "positive_integer_key k \<Longrightarrow> parseInt k = Fin (key_version k) \<and> 0 < key_version k
     \<and> NumberToString (Fin (key_version k)) = k"
  by (auto simp: positive_integer_key_def key_version_def split: jsnumber.splits)

lemma parse_valid_keys:
  "list_all positive_integer_key ks \<Longrightarrow> map parseInt ks = map Fin (map key_version ks)"
  by (induction ks) (auto dest: positive_key_parse)

lemma find_nonpositive_none:
  "list_all positive_integer_key ks \<Longrightarrow> List.find (\<lambda>v. num_le v (Fin 0)) (map parseInt ks) = None"
  by (induction ks) (auto dest: positive_key_parse)

lemma validate_valid:
  "valid_table tbl \<Longrightarrow>
     validateMigrationVersionNumbers (map fst tbl) =
       (\<lparr> passed = True, sortedVersions = map Fin (sort (map key_version (map fst tbl))) \<rparr>, [])"
proof -
  assume v: "valid_table tbl"
  then have ks: "list_all positive_integer_key (map fst tbl)"
    by (simp add: valid_table_def)
  have p: "map parseInt (map fst tbl) = map Fin (map key_version (map fst tbl))"
    using ks by (rule parse_valid_keys)
  have f: "List.find (\<lambda>v. num_le v (Fin 0)) (map parseInt (map fst tbl)) = None"
    using ks by (rule find_nonpositive_none)
  show ?thesis
    unfolding validateMigrationVersionNumbers_def Let_def f
    by (simp add: p array_sort_Fin del: map_map)
qed














lemma migrate_versions_skipped:
  "\<forall>v \<in> set vs. v \<le> lastMigrationVersion m \<Longrightarrow>
     migrate_versions tbl m (map Fin vs) lmv s = (Inr lmv, [], s)"
  by (induction vs) auto


lemma assignDBInfo_version:
  "assignDBInfo m \<lparr> lastMigrationVersion_opt = Some n, currUser_opt = None \<rparr> = m\<lparr>lastMigrationVersion := n\<rparr>"
  by (simp add: assignDBInfo_def)

lemma putMeta_version:
  "dbMetaCache s = Some m \<Longrightarrow> \<not> setItem_rejects c metaKey \<Longrightarrow>
     putMeta c \<lparr> lastMigrationVersion_opt = Some n, currUser_opt = None \<rparr> s =
       (Inr (), s\<lparr> dbMetaCache := Some (m\<lparr>lastMigrationVersion := n\<rparr>),
                   AsyncStorage := (AsyncStorage s)(metaKey \<mapsto>
                      JSON_stringify c (jsval_of_DBInfo (m\<lparr>lastMigrationVersion := n\<rparr>))) \<rparr>)"
  by (simp add: putMeta_def assignDBInfo_version AsyncStorage_setItem_def Let_def)





text \<open>
  Every positive integer has a key of a valid table: the key it turns into parses back to it.
\<close>

lemma isDigit_digitChar: "d < 10 \<Longrightarrow> isDigit (digitChar d)"
  by (simp add: isDigit_def digitChar_def)

lemma digitValue_digitChar: "d < 10 \<Longrightarrow> digitValue (digitChar d) = d"
  by (simp add: digitValue_def digitChar_def)

lemma digit_not_space: "isDigit ch \<Longrightarrow> \<not> isWhiteSpace ch"
  by (auto simp: isDigit_def isWhiteSpace_def)

lemma digit_not_sign: "isDigit ch \<Longrightarrow> ch \<noteq> CHR ''-'' \<and> ch \<noteq> CHR ''+''"
  by (auto simp: isDigit_def)

lemma natToString_digits: "natToString n \<noteq> [] \<and> (\<forall>ch \<in> set (natToString n). isDigit ch)"
proof (induction n rule: natToString.induct)
  case (1 n)
  show ?case
  proof (cases "n < 10")
    case True
    then show ?thesis by (simp add: natToString.simps [of n] isDigit_digitChar)
  next
    case False
    with 1 show ?thesis
      by (simp add: natToString.simps [of n] isDigit_digitChar)
  qed
qed

lemma digitsValue_snoc: "digitsValue (Z @ [ch]) = 10 * digitsValue Z + digitValue ch"
  by (simp add: digitsValue_def)

lemma digitsValue_natToString: "digitsValue (natToString n) = n"
proof (induction n rule: natToString.induct)
  case (1 n)
  show ?case
  proof (cases "n < 10")
    case True
    then show ?thesis
      by (simp add: natToString.simps [of n] digitsValue_def digitValue_digitChar)
  next
    case False
    with 1 show ?thesis
      by (simp add: natToString.simps [of n] digitsValue_snoc digitValue_digitChar)
  qed
qed

lemma parseInt_natToString: "parseInt (natToString n) = Fin (int n)"
proof -
  obtain ch r where s: "natToString n = ch # r"
    using natToString_digits [of n] by (cases "natToString n") auto
  with natToString_digits [of n] have d: "isDigit ch" "\<forall>x \<in> set r. isDigit x" by auto
  have dw: "dropWhile isWhiteSpace (ch # r) = ch # r"
    using d digit_not_space by simp
  have tw: "takeWhile isDigit (ch # r) = ch # r"
    using d by (simp add: takeWhile_eq_all_conv)
  show ?thesis
    unfolding parseInt_def s dw Let_def
    using digit_not_sign [OF d(1)] tw digitsValue_natToString [of n] s
    by simp
qed

lemma positive_integer_key_natToString: "0 < n \<Longrightarrow> positive_integer_key (natToString n)"
  by (simp add: positive_integer_key_def parseInt_natToString)

lemma key_version_natToString: "key_version (natToString n) = int n"
  by (simp add: key_version_def parseInt_natToString)

lemma natToString_inject:
  assumes "natToString m = natToString n"
  shows "m = n"
proof -
  have "parseInt (natToString m) = parseInt (natToString n)"
    using assms by (rule arg_cong)
  then show ?thesis
    by (simp only: parseInt_natToString jsnumber.inject of_nat_eq_iff)
qed

text \<open>An object literal with distinct positive integer keys is a valid table.\<close>

lemma valid_table_of_versions:
  assumes "distinct (map fst vfs)" "\<forall>v \<in> set (map fst vfs). 0 < v"
  shows "valid_table (map (\<lambda>(v, fs). (natToString v, fs)) vfs)"
proof -
  have "map fst (map (\<lambda>(v, fs). (natToString v, fs)) vfs) = map natToString (map fst vfs)"
    by (induction vfs) auto
  moreover have "distinct (map natToString (map fst vfs))"
    using assms(1) by (simp add: distinct_map inj_on_def natToString_inject del: map_map)
  moreover have "list_all positive_integer_key (map natToString (map fst vfs))"
    using assms(2) by (auto simp: list_all_iff positive_integer_key_natToString)
  ultimately show ?thesis by (simp add: valid_table_def del: map_map)
qed

text \<open>
  \<^verbatim>\<open>migrate\<close> works on the metadata \<^verbatim>\<open>getMeta\<close> gives it, cached before or loaded by the
  call.
\<close>

lemma migrate_loads_metadata:
  assumes "getMeta c s = (Inr (Some m), s0)"
  shows "dbMetaCache s0 = Some m" and "migrate c (Some tbl) s = migrate c (Some tbl) s0"
proof -
  from getMeta_result [OF assms] show m0: "dbMetaCache s0 = Some m" by simp
  from getMeta_cached [OF m0] assms show "migrate c (Some tbl) s = migrate c (Some tbl) s0"
    by (simp add: migrate_def)
qed



section \<open>The metadata under the public operations\<close>

text \<open>No key of an entry is the metadata key, which has no colon.\<close>

lemma userKey_not_metaKey [simp]:
  "u @ CHR '':'' # k \<noteq> metaKey" "metaKey \<noteq> u @ CHR '':'' # k"
proof -
  have "CHR '':'' \<notin> set metaKey" by (simp add: metaKey_def)
  moreover have "CHR '':'' \<in> set (u @ CHR '':'' # k)" by simp
  ultimately show "u @ CHR '':'' # k \<noteq> metaKey" by metis
  then show "metaKey \<noteq> u @ CHR '':'' # k" by metis
qed

lemma installIdKey_not_metaKey [simp]: "installIdKey \<noteq> metaKey" "metaKey \<noteq> installIdKey"
  by (simp_all add: installIdKey_def metaKey_def)

text \<open>
  On a store that has its metadata cached and no alias of it in the cache, the data
  operations leave the cached and the stored metadata alone and make no alias.
\<close>

lemma put_frame:
  assumes "dbMetaCache s = Some m" "no_alias s" "v \<noteq> MetaObject"
  shows "dbMetaCache (snd (put c k v s)) = Some m"
    and "AsyncStorage (snd (put c k v s)) metaKey = AsyncStorage s metaKey"
    and "no_alias (snd (put c k v s))"
  using assms
  by (auto simp: put_def await_assoc_prelude prelude_with_meta AsyncStorage_setItem_def no_alias_def
           split: option.splits)

lemma get_frame:
  assumes "dbMetaCache s = Some m" "no_alias s"
  shows "dbMetaCache (snd (snd (get c k s))) = Some m"
    and "AsyncStorage (snd (snd (get c k s))) metaKey = AsyncStorage s metaKey"
    and "no_alias (snd (snd (get c k s)))"
  using assms
  by (auto simp: get_def prelude_with_meta AsyncStorage_getItem_def no_alias_def
           split: option.splits)

lemma del_frame:
  assumes "dbMetaCache s = Some m" "no_alias s"
  shows "dbMetaCache (snd (del c k s)) = Some m"
    and "AsyncStorage (snd (del c k s)) metaKey = AsyncStorage s metaKey"
    and "no_alias (snd (del c k s))"
  using assms
  by (auto simp: del_def await_assoc_prelude prelude_with_meta AsyncStorage_removeItem_def no_alias_def
           split: option.splits)

lemma update_frame:
  assumes "dbMetaCache s = Some m" "no_alias s"
  shows "dbMetaCache (snd (update c k v s)) = Some m"
    and "AsyncStorage (snd (update c k v s)) metaKey = AsyncStorage s metaKey"
    and "no_alias (snd (update c k v s))"
  using assms
  by (auto simp: update_def await_assoc_prelude prelude_with_meta AsyncStorage_setItem_def no_alias_def
           split: option.splits sum.splits entry.splits)

lemma getInstallId_frame:
  shows "dbMetaCache (snd (getInstallId c s)) = dbMetaCache s"
    and "AsyncStorage (snd (getInstallId c s)) metaKey = AsyncStorage s metaKey"
    and "dbCache (snd (getInstallId c s)) = dbCache s"
  by (simp_all add: getInstallId_def await_def AsyncStorage_getItem_def AsyncStorage_setItem_def)

lemma not_behind_refl: "not_behind po po"
  by (simp add: not_behind_def split: option.splits)

lemma not_behind_trans: "not_behind po po1 \<Longrightarrow> not_behind po1 po2 \<Longrightarrow> not_behind po po2"
  by (auto simp: not_behind_def split: option.splits)

lemma in_step_frame:
  "in_step c s po \<Longrightarrow> dbMetaCache s = Some m \<Longrightarrow> dbMetaCache s' = Some m' \<Longrightarrow>
     lastMigrationVersion m \<le> lastMigrationVersion m' \<Longrightarrow>
     AsyncStorage s' metaKey = AsyncStorage s metaKey \<Longrightarrow> no_alias s' \<Longrightarrow> in_step c s' po"
  by (auto simp: in_step_def persisted_def split: option.splits)

lemma in_step_written:
  "dbMetaCache s' = Some m' \<Longrightarrow>
     AsyncStorage s' metaKey = Some (JSON_stringify c (jsval_of_DBInfo m')) \<Longrightarrow> no_alias s' \<Longrightarrow>
     in_step c s' (Some m')"
  by (simp add: in_step_def persisted_def)

lemma in_step_not_behind_cached:
  "in_step c s po \<Longrightarrow> dbMetaCache s = Some m \<Longrightarrow> not_behind po0 po \<Longrightarrow>
     lastMigrationVersion m \<le> lastMigrationVersion m' \<Longrightarrow> not_behind po0 (Some m')"
  by (auto simp: in_step_def not_behind_def split: option.splits)

text \<open>
  On a store in step with its storage that has not loaded its metadata yet, the first read
  of the metadata fails and leaves the store as it is, or it loads the record stored.
\<close>

lemma getMeta_unloaded:
  assumes "in_step c s (Some p)" "dbMetaCache s = None"
  shows "getMeta c s = (if getItem_rejects c metaKey then (Inl (Rejected metaKey), s)
                        else (Inr (Some p), s\<lparr>dbMetaCache := Some p\<rparr>))"
  using assms
  by (simp add: in_step_def persisted_def readable_def getMeta_def await_def AsyncStorage_getItem_def
        jsval_of_DBInfo_def)

lemma prelude_unloaded:
  assumes "in_step c s (Some p)" "dbMetaCache s = None"
  shows "await (ensure_init c) (\<lambda>_. makeUserKey c k) s =
           (if getItem_rejects c metaKey then (Inl (Rejected metaKey), s)
            else await (ensure_init c) (\<lambda>_. makeUserKey c k) (s\<lparr>dbMetaCache := Some p\<rparr>))"
  using getMeta_unloaded [OF assms]
  by (simp add: await_def ensure_init_def init_def makeUserKey_def getMeta_cached split: option.splits)

lemma loaded_in_step:
  assumes "in_step c s (Some p)" "dbMetaCache s = None"
  shows "in_step c (s\<lparr>dbMetaCache := Some p\<rparr>) (Some p)"
  using assms by (simp add: in_step_def persisted_def no_alias_def)

text \<open>
  On a store that has no metadata at all, cached or stored, the first read finds nothing,
  and the initialisation writes the default record.
\<close>

lemma getMeta_blank:
  assumes "in_step c s None" "dbMetaCache s = None"
  shows "getMeta c s = (if getItem_rejects c metaKey then (Inl (Rejected metaKey), s) else (Inr None, s))"
  using assms
  by (simp add: in_step_def getMeta_def await_def AsyncStorage_getItem_def)

lemma assign_default: "assignDBInfo d (asPartial d) = d"
  by (simp add: assignDBInfo_def asPartial_def)

lemma putMeta_default:
  assumes "dbMetaCache s = None"
  shows "putMeta c (asPartial (defaultMeta s)) s =
           (if setItem_rejects c metaKey
            then (Inl (Rejected metaKey), s\<lparr>dbMetaCache := Some (defaultMeta s)\<rparr>)
            else (Inr (), s\<lparr>dbMetaCache := Some (defaultMeta s),
                            AsyncStorage := (AsyncStorage s)(metaKey \<mapsto>
                               JSON_stringify c (jsval_of_DBInfo (defaultMeta s)))\<rparr>))"
  using assms by (simp add: putMeta_def assign_default AsyncStorage_setItem_def Let_def)

lemma prelude_blank:
  assumes "in_step c s None" "dbMetaCache s = None"
  shows "await (ensure_init c) (\<lambda>_. makeUserKey c k) s =
           (if getItem_rejects c metaKey then (Inl (Rejected metaKey), s)
            else case dbCache s of
                   Some cache \<Rightarrow> (Inl TypeError, s)
                 | None \<Rightarrow>
                    if setItem_rejects c metaKey
                    then (Inl (Rejected metaKey), s\<lparr>dbMetaCache := Some (defaultMeta s)\<rparr>)
                    else await (ensure_init c) (\<lambda>_. makeUserKey c k)
                           (snd (putMeta c (asPartial (defaultMeta s)) s)))"
  using getMeta_blank [OF assms] putMeta_default [OF assms(2), of c]
  by (simp add: await_def ensure_init_def init_def makeUserKey_def getMeta_cached split: option.splits)

lemma initialised_in_step:
  assumes "in_step c s None" "dbMetaCache s = None"
  shows "\<exists>po. in_step c (snd (putMeta c (asPartial (defaultMeta s)) s)) po"
    and "dbMetaCache (snd (putMeta c (asPartial (defaultMeta s)) s)) = Some (defaultMeta s)"
    and "in_step c (s\<lparr>dbMetaCache := Some (defaultMeta s)\<rparr>) None"
proof -
  show "dbMetaCache (snd (putMeta c (asPartial (defaultMeta s)) s)) = Some (defaultMeta s)"
    by (simp add: putMeta_default [OF assms(2)])
  show h: "in_step c (s\<lparr>dbMetaCache := Some (defaultMeta s)\<rparr>) None"
    using assms by (simp add: in_step_def no_alias_def)
  show "\<exists>po. in_step c (snd (putMeta c (asPartial (defaultMeta s)) s)) po"
  proof (cases "setItem_rejects c metaKey")
    case True
    with h show ?thesis by (auto simp: putMeta_default [OF assms(2)])
  next
    case False
    have "in_step c (snd (putMeta c (asPartial (defaultMeta s)) s)) (Some (defaultMeta s))"
      using assms False
      by (simp add: putMeta_default [OF assms(2)] in_step_def persisted_def no_alias_def)
    then show ?thesis by blast
  qed
qed

text \<open>
  The states a run of steady migration functions goes through: the version \<open>N\<close> is cached,
  and the store is in step with its storage.
\<close>

lemma steady_step:
  assumes "steady c f" "runner_state c po0 N s"
  shows "runner_state c po0 N (snd (call f s))"
proof -
  from assms(2) obtain m po where
    s: "dbMetaCache s = Some m" "lastMigrationVersion m = N" "in_step c s po" "not_behind po0 po"
    unfolding runner_state_def by blast
  from s(3) have na: "no_alias s" by (simp add: in_step_def)
  from s(1) have ne: "dbMetaCache s \<noteq> None" by simp
  from assms(1) ne have
    v: "version_of (snd (call f s)) = version_of s"
    and w: "AsyncStorage (snd (call f s)) metaKey = AsyncStorage s metaKey
         \<or> AsyncStorage (snd (call f s)) metaKey
             = map_option (\<lambda>m. JSON_stringify c (jsval_of_DBInfo m)) (dbMetaCache (snd (call f s)))"
    and a: "no_alias s \<longrightarrow> no_alias (snd (call f s))"
    unfolding steady_def by blast+
  from v s(1,2) obtain m' where
    m': "dbMetaCache (snd (call f s)) = Some m'" "lastMigrationVersion m' = N"
    by (auto simp: version_of_def)
  from a na have na': "no_alias (snd (call f s))" by simp
  from w show ?thesis
  proof
    assume "AsyncStorage (snd (call f s)) metaKey = AsyncStorage s metaKey"
    from in_step_frame [OF s(3) s(1) m'(1) _ this na'] s(2) m'(2)
    have "in_step c (snd (call f s)) po" by simp
    with m' s(4) show ?thesis unfolding runner_state_def by blast
  next
    assume "AsyncStorage (snd (call f s)) metaKey
             = map_option (\<lambda>m. JSON_stringify c (jsval_of_DBInfo m)) (dbMetaCache (snd (call f s)))"
    with m' have "AsyncStorage (snd (call f s)) metaKey = Some (JSON_stringify c (jsval_of_DBInfo m'))"
      by simp
    from in_step_written [OF m'(1) this na']
    have 1: "in_step c (snd (call f s)) (Some m')" .
    from in_step_not_behind_cached [OF s(3) s(1) s(4), of m'] s(2) m'(2)
    have 2: "not_behind po0 (Some m')" by simp
    from 1 2 m' show ?thesis unfolding runner_state_def by blast
  qed
qed

lemma run_functions_steady:
  "\<forall>f \<in> set fs. steady c f \<Longrightarrow> runner_state c po0 N s \<Longrightarrow>
     runner_state c po0 N (snd (snd (run_functions fs s)))"
proof (induction fs arbitrary: s)
  case Nil
  then show ?case by simp
next
  case (Cons f fs)
  from Cons.prems have "steady c f" by simp
  from steady_step [OF this Cons.prems(2)] have 1: "runner_state c po0 N (snd (call f s))" .
  from Cons.IH [OF _ 1] Cons.prems(1)
  have 2: "runner_state c po0 N (snd (snd (run_functions fs (snd (call f s)))))" by simp
  show ?case using 1 2 by (auto split: prod.splits sum.splits)
qed

lemma runner_state_alias:
  "runner_state c po0 N s \<Longrightarrow> lastMigrationVersion (alias_of m s) = N"
  by (auto simp: runner_state_def alias_of_def)

lemma migrate_versions_steady:
  assumes fs: "\<forall>f \<in> set (table_functions tbl). steady c f"
  shows "runner_state c po0 N s \<Longrightarrow> lastMigrationVersion m = N \<Longrightarrow>
     runner_state c po0 N (snd (snd (migrate_versions tbl m vs lmv s))) \<and>
     (\<forall>n. fst (migrate_versions tbl m vs lmv s) = Inr (Fin n) \<longrightarrow> Fin n = lmv \<or> N < n)"
proof (induction vs arbitrary: lmv s m)
  case Nil
  then show ?case by simp
next
  case (Cons v vs)
  show ?case
  proof (cases "num_ge (Fin (lastMigrationVersion m)) v")
    case True
    with Cons show ?thesis by simp
  next
    case False
    show ?thesis
    proof (cases "map_of tbl (NumberToString v)")
      case None
      with False Cons.prems show ?thesis by simp
    next
      case (Some fns)
      then have "set fns \<subseteq> set (table_functions tbl)"
        by (force simp: table_functions_def dest: map_of_SomeD)
      with fs have k: "\<forall>f \<in> set fns. steady c f" by blast
      obtain r evs s1 where r: "run_functions fns s = (r, evs, s1)"
        by (cases "run_functions fns s") auto
      from run_functions_steady [OF k Cons.prems(1)] r have s1: "runner_state c po0 N s1" by simp
      from False Cons.prems(2) have v: "\<And>n. v = Fin n \<Longrightarrow> N < n" by auto
      from Cons.IH [OF s1 runner_state_alias [OF s1], of m v] v
      have ih: "runner_state c po0 N (snd (snd (migrate_versions tbl (alias_of m s1) vs v s1)))"
        "\<And>n. fst (migrate_versions tbl (alias_of m s1) vs v s1) = Inr (Fin n) \<Longrightarrow> N < n"
        by auto
      show ?thesis using False Some r s1 ih
        by (auto split: sum.splits prod.splits simp del: NumberToString.simps)
    qed
  qed
qed

text \<open>
  \<^verbatim>\<open>migrate\<close> with steady functions, whatever the table: the cached version does not
  decrease, the stored version does not decrease, and the stored version is not ahead of
  the cached one. The loop lemma above holds for every list of versions, so this depends
  neither on the order in which the sort leaves the versions nor on the numbers the keys
  parse to.
\<close>

lemma putMeta_runner_state:
  assumes "runner_state c po0 N s" "N < n"
  shows "runner_state c po0 n
           (snd (putMeta c \<lparr> lastMigrationVersion_opt = Some n, currUser_opt = None \<rparr> s))"
proof -
  from assms(1) obtain m po where
    s: "dbMetaCache s = Some m" "lastMigrationVersion m = N" "in_step c s po" "not_behind po0 po"
    unfolding runner_state_def by blast
  from s(3) have na: "no_alias s" by (simp add: in_step_def)
  let ?m = "m\<lparr>lastMigrationVersion := n\<rparr>"
  from s(2) assms(2) have le: "lastMigrationVersion m \<le> lastMigrationVersion ?m" by simp
  show ?thesis
  proof (cases "setItem_rejects c metaKey")
    case True
    with s have e: "snd (putMeta c \<lparr> lastMigrationVersion_opt = Some n, currUser_opt = None \<rparr> s)
                   = s\<lparr>dbMetaCache := Some ?m\<rparr>"
      by (simp add: putMeta_def assignDBInfo_version AsyncStorage_setItem_def Let_def)
    have "in_step c (s\<lparr>dbMetaCache := Some ?m\<rparr>) po"
      using na by (intro in_step_frame [OF s(3) s(1) _ le]) (simp_all add: no_alias_def)
    with s(4) show ?thesis
      unfolding runner_state_def e by (intro exI [of _ ?m] exI [of _ po]) simp
  next
    case False
    from putMeta_version [OF s(1) False, of n]
    have e: "snd (putMeta c \<lparr> lastMigrationVersion_opt = Some n, currUser_opt = None \<rparr> s)
               = s\<lparr> dbMetaCache := Some ?m,
                    AsyncStorage := (AsyncStorage s)(metaKey \<mapsto> JSON_stringify c (jsval_of_DBInfo ?m)) \<rparr>"
      by simp
    have 1: "in_step c (s\<lparr> dbMetaCache := Some ?m,
                    AsyncStorage := (AsyncStorage s)(metaKey \<mapsto> JSON_stringify c (jsval_of_DBInfo ?m)) \<rparr>)
               (Some ?m)"
      using na by (intro in_step_written) (simp_all add: no_alias_def)
    from in_step_not_behind_cached [OF s(3) s(1) s(4) le]
    have 2: "not_behind po0 (Some ?m)" .
    from 1 2 show ?thesis
      unfolding runner_state_def e by (intro exI [of _ ?m] exI [of _ "Some ?m"]) simp
  qed
qed

lemma migrate_steady:
  assumes st: "runner_state c po0 N s"
    and fs: "\<forall>f \<in> set (table_functions tbl). steady c f"
  shows "\<exists>N'. runner_state c po0 N' (snd (snd (migrate c (Some tbl) s))) \<and> N \<le> N'"
proof -
  from st obtain m where m: "dbMetaCache s = Some m" "lastMigrationVersion m = N"
    unfolding runner_state_def by blast
  obtain res evs0 where v: "validateMigrationVersionNumbers (map fst tbl) = (res, evs0)"
    by (cases "validateMigrationVersionNumbers (map fst tbl)") auto
  obtain r evs2 s2 where l: "migrate_versions tbl m (sortedVersions res) (Fin 0) s = (r, evs2, s2)"
    by (cases "migrate_versions tbl m (sortedVersions res) (Fin 0) s") auto
  from migrate_versions_steady [OF fs st m(2), of "sortedVersions res" "Fin 0"] l
  have s2: "runner_state c po0 N s2"
    and n: "\<And>n. r = Inr (Fin n) \<Longrightarrow> n = 0 \<or> N < n"
    by auto
  show ?thesis
  proof (cases "passed res")
    case False
    with m v st show ?thesis
      by (auto simp: migrate_def getMeta_cached)
  next
    case True
    show ?thesis
    proof (cases r)
      case (Inl e)
      with True m v l s2 show ?thesis
        by (auto simp: migrate_def getMeta_cached Let_def)
    next
      case (Inr x)
      show ?thesis
      proof (cases x)
        case NaN
        with Inr True m v l s2 show ?thesis
          by (auto simp: migrate_def getMeta_cached Let_def)
      next
        case (Fin k)
        show ?thesis
        proof (cases "k = 0")
          case True
          with Fin Inr \<open>passed res\<close> m v l s2 show ?thesis
            by (auto simp: migrate_def getMeta_cached Let_def)
        next
          case False
          with n Inr Fin have lt: "N < k" by auto
          from putMeta_runner_state [OF s2 lt]
          have "runner_state c po0 k
                  (snd (putMeta c \<lparr> lastMigrationVersion_opt = Some k, currUser_opt = None \<rparr> s2))" .
          moreover have "snd (snd (migrate c (Some tbl) s))
                  = snd (putMeta c \<lparr> lastMigrationVersion_opt = Some k, currUser_opt = None \<rparr> s2)"
            using False Fin Inr \<open>passed res\<close> m v l
            by (auto simp: migrate_def getMeta_cached Let_def split: prod.splits sum.splits)
          ultimately show ?thesis using lt by (intro exI [of _ k]) simp
        qed
      qed
    qed
  qed
qed

text \<open>One admissible operation on a store in step with its storage, metadata cached.\<close>

lemma exec_in_step_cached:
  assumes m: "dbMetaCache s = Some m"
    and st: "in_step c s po"
    and x: "admissible c x"
  shows "\<exists>po' m'. in_step c (exec c x s) po' \<and> dbMetaCache (exec c x s) = Some m'
           \<and> not_behind po po'
           \<and> lastMigrationVersion m \<le> lastMigrationVersion m'
           \<and> (\<not> is_migrate x \<longrightarrow> po' = po \<and> m' = m)"
proof -
  from st have na: "no_alias s" by (simp add: in_step_def)
  have frame: "dbMetaCache s' = Some m \<Longrightarrow> AsyncStorage s' metaKey = AsyncStorage s metaKey \<Longrightarrow>
     no_alias s' \<Longrightarrow> in_step c s' po" for s'
    using in_step_frame [OF st m, of s' m] by simp
  note nb = not_behind_refl [of po]
  show ?thesis
  proof (cases x)
    case GetInstallId
    from getInstallId_frame [of c s] m na
    have "in_step c (snd (getInstallId c s)) po"
      by (intro frame) (simp_all add: no_alias_def)
    with GetInstallId m getInstallId_frame(1) [of c s] nb show ?thesis by auto
  next
    case GetMeta
    with m st nb show ?thesis by (auto simp: getMeta_cached)
  next
    case (PutMeta pm)
    with x show ?thesis by simp
  next
    case (Put k v)
    with x have "v \<noteq> MetaObject" by simp
    from put_frame [OF m na this, of c k] frame Put nb show ?thesis by auto
  next
    case (Get k)
    from get_frame [OF m na, of c k] frame Get nb show ?thesis by auto
  next
    case (CacheGet k)
    with m st nb show ?thesis by auto
  next
    case (Del k)
    from del_frame [OF m na, of c k] frame Del nb show ?thesis by auto
  next
    case (Update k v)
    from update_frame [OF m na, of c k v] frame Update nb show ?thesis by auto
  next
    case (Migrate t)
    show ?thesis
    proof (cases t)
      case None
      with Migrate m st nb show ?thesis by (auto simp: migrate_def)
    next
      case (Some tbl)
      with Migrate x have fs: "\<forall>f \<in> set (table_functions tbl). steady c f"
        by (simp add: list_all_iff)
      have "runner_state c po (lastMigrationVersion m) s"
        unfolding runner_state_def using m st nb by blast
      from migrate_steady [OF this fs] obtain N' where
        r: "runner_state c po N' (snd (snd (migrate c (Some tbl) s)))"
           "lastMigrationVersion m \<le> N'"
        by blast
      then show ?thesis using Migrate Some unfolding runner_state_def by auto
    qed
  next
    case GetCache
    with m st nb show ?thesis by auto
  next
    case PurgeCache
    have "in_step c (purgeCache s) po"
      using m by (intro frame) (simp_all add: purgeCache_def no_alias_def)
    with PurgeCache m nb show ?thesis by (auto simp: purgeCache_def)
  qed
qed

text \<open>
  The same on a store that has not loaded its metadata: the operation keeps it unloaded
  and in step, or it is the operation on the store with the stored record loaded.
\<close>

lemma exec_unloaded:
  assumes st: "in_step c s (Some p)" and m: "dbMetaCache s = None" and x: "admissible c x"
  shows "(dbMetaCache (exec c x s) = None \<and> in_step c (exec c x s) (Some p))
       \<or> exec c x s = exec c x (s\<lparr>dbMetaCache := Some p\<rparr>)"
proof (cases x)
  case GetInstallId
  from getInstallId_frame [of c s] st m have "in_step c (snd (getInstallId c s)) (Some p)"
    by (simp add: in_step_def persisted_def no_alias_def)
  with GetInstallId m getInstallId_frame(1) [of c s] show ?thesis by simp
next
  case GetMeta
  with getMeta_unloaded [OF st m] st m show ?thesis
    by (simp add: getMeta_cached)
next
  case (PutMeta pm)
  with x show ?thesis by simp
next
  case (Put k v)
  with prelude_unloaded [OF st m, of k] st m show ?thesis
    by (simp add: put_def await_assoc_prelude)
next
  case (Get k)
  with prelude_unloaded [OF st m, of k] st m show ?thesis
    by (simp add: get_def)
next
  case (CacheGet k)
  with st m show ?thesis by simp
next
  case (Del k)
  with prelude_unloaded [OF st m, of k] st m show ?thesis
    by (simp add: del_def await_assoc_prelude)
next
  case (Update k v)
  with prelude_unloaded [OF st m, of k] st m show ?thesis
    by (simp add: update_def await_assoc_prelude)
next
  case (Migrate t)
  show ?thesis
  proof (cases t)
    case None
    with Migrate st m show ?thesis by (simp add: migrate_def)
  next
    case (Some tbl)
    with Migrate getMeta_unloaded [OF st m] st m show ?thesis
      by (simp add: migrate_def getMeta_cached)
  qed
next
  case GetCache
  with st m show ?thesis by simp
next
  case PurgeCache
  have "in_step c (purgeCache s) (Some p)"
    using st m by (simp add: in_step_def persisted_def purgeCache_def no_alias_def)
  with PurgeCache m show ?thesis by (simp add: purgeCache_def)
qed

text \<open>
  The same on a store that has no metadata at all: the operation leaves nothing stored, or
  it is the operation on the store that the initialisation leaves.
\<close>

lemma exec_blank:
  assumes st: "in_step c s None" and m: "dbMetaCache s = None" and x: "admissible c x"
  shows "in_step c (exec c x s) None
       \<or> exec c x s = exec c x (snd (putMeta c (asPartial (defaultMeta s)) s))"
proof (cases x)
  case GetInstallId
  from getInstallId_frame [of c s] st have "in_step c (snd (getInstallId c s)) None"
    by (simp add: in_step_def no_alias_def)
  with GetInstallId show ?thesis by simp
next
  case GetMeta
  with getMeta_blank [OF st m] st show ?thesis by simp
next
  case (PutMeta pm)
  with x show ?thesis by simp
next
  case (Put k v)
  with prelude_blank [OF st m, of k] st initialised_in_step(3) [OF st m] show ?thesis
    by (simp add: put_def await_assoc_prelude split: option.splits)
next
  case (Get k)
  with prelude_blank [OF st m, of k] st initialised_in_step(3) [OF st m] show ?thesis
    by (simp add: get_def split: option.splits)
next
  case (CacheGet k)
  with st show ?thesis by simp
next
  case (Del k)
  with prelude_blank [OF st m, of k] st initialised_in_step(3) [OF st m] show ?thesis
    by (simp add: del_def await_assoc_prelude split: option.splits)
next
  case (Update k v)
  with prelude_blank [OF st m, of k] st initialised_in_step(3) [OF st m] show ?thesis
    by (simp add: update_def await_assoc_prelude split: option.splits)
next
  case (Migrate t)
  show ?thesis
  proof (cases t)
    case None
    with Migrate st show ?thesis by (simp add: migrate_def)
  next
    case (Some tbl)
    with Migrate getMeta_blank [OF st m] st show ?thesis
      by (simp add: migrate_def)
  qed
next
  case GetCache
  with st show ?thesis by simp
next
  case PurgeCache
  have "in_step c (purgeCache s) None"
    using st by (simp add: in_step_def purgeCache_def no_alias_def)
  with PurgeCache show ?thesis by simp
qed

lemma exec_in_step:
  assumes st: "in_step c s po" and x: "admissible c x"
  shows "\<exists>po'. in_step c (exec c x s) po'
           \<and> not_behind po po'
           \<and> (po \<noteq> None \<and> \<not> is_migrate x \<longrightarrow> po' = po)
           \<and> (\<forall>m. dbMetaCache s = Some m \<longrightarrow>
                 (\<exists>m'. dbMetaCache (exec c x s) = Some m'
                    \<and> lastMigrationVersion m \<le> lastMigrationVersion m'
                    \<and> (\<not> is_migrate x \<longrightarrow> m' = m)))"
proof (cases "dbMetaCache s")
  case (Some m)
  from exec_in_step_cached [OF Some st x] Some show ?thesis by auto
next
  case None
  show ?thesis
  proof (cases po)
    case (Some p)
    from exec_unloaded [OF st [unfolded Some] None x] show ?thesis
    proof
      assume "dbMetaCache (exec c x s) = None \<and> in_step c (exec c x s) (Some p)"
      with None Some not_behind_refl [of po] show ?thesis by auto
    next
      assume e: "exec c x s = exec c x (s\<lparr>dbMetaCache := Some p\<rparr>)"
      have "dbMetaCache (s\<lparr>dbMetaCache := Some p\<rparr>) = Some p" by simp
      from exec_in_step_cached [OF this loaded_in_step [OF st [unfolded Some] None] x] e None Some
      show ?thesis by auto
    qed
  next
    case po: None
    have nb: "not_behind po po'" for po'
      by (simp add: po not_behind_def)
    from exec_blank [OF st [unfolded po] None x] show ?thesis
    proof
      assume "in_step c (exec c x s) None"
      with None po nb show ?thesis by auto
    next
      assume e: "exec c x s = exec c x (snd (putMeta c (asPartial (defaultMeta s)) s))"
      from initialised_in_step(1,2) [OF st [unfolded po] None] obtain po1 where
        i: "in_step c (snd (putMeta c (asPartial (defaultMeta s)) s)) po1"
           "dbMetaCache (snd (putMeta c (asPartial (defaultMeta s)) s)) = Some (defaultMeta s)"
        by blast
      from exec_in_step_cached [OF i(2) i(1) x] e None po nb show ?thesis by auto
    qed
  qed
qed

text \<open>A sequence of admissible operations on a store in step with its storage.\<close>

lemma exec_all_in_step:
  assumes "in_step c s po" "list_all (admissible c) ops"
  shows "\<exists>po'. in_step c (exec_all c ops s) po'
           \<and> not_behind po po'
           \<and> (po \<noteq> None \<and> list_all (\<lambda>x. \<not> is_migrate x) ops \<longrightarrow> po' = po)
           \<and> (\<forall>m. dbMetaCache s = Some m \<longrightarrow>
                 (\<exists>m'. dbMetaCache (exec_all c ops s) = Some m'
                    \<and> lastMigrationVersion m \<le> lastMigrationVersion m'
                    \<and> (list_all (\<lambda>x. \<not> is_migrate x) ops \<longrightarrow> m' = m)))"
  using assms
proof (induction ops arbitrary: s po)
  case Nil
  then show ?case by (auto simp: not_behind_refl)
next
  case (Cons x ops)
  from Cons.prems have x: "admissible c x" and xs: "list_all (admissible c) ops" by simp_all
  from exec_in_step [OF Cons.prems(1) x] obtain p1 where
    p1: "in_step c (exec c x s) p1" "not_behind po p1"
        "po \<noteq> None \<and> \<not> is_migrate x \<longrightarrow> p1 = po"
        "\<forall>m. dbMetaCache s = Some m \<longrightarrow>
           (\<exists>m'. dbMetaCache (exec c x s) = Some m'
              \<and> lastMigrationVersion m \<le> lastMigrationVersion m'
              \<and> (\<not> is_migrate x \<longrightarrow> m' = m))"
    by blast
  from Cons.IH [OF p1(1) xs] obtain p2 where
    p2: "in_step c (exec_all c ops (exec c x s)) p2" "not_behind p1 p2"
        "p1 \<noteq> None \<and> list_all (\<lambda>x. \<not> is_migrate x) ops \<longrightarrow> p2 = p1"
        "\<forall>m. dbMetaCache (exec c x s) = Some m \<longrightarrow>
           (\<exists>m'. dbMetaCache (exec_all c ops (exec c x s)) = Some m'
              \<and> lastMigrationVersion m \<le> lastMigrationVersion m'
              \<and> (list_all (\<lambda>x. \<not> is_migrate x) ops \<longrightarrow> m' = m))"
    by blast
  have "\<forall>m. dbMetaCache s = Some m \<longrightarrow>
           (\<exists>m'. dbMetaCache (exec_all c ops (exec c x s)) = Some m'
              \<and> lastMigrationVersion m \<le> lastMigrationVersion m'
              \<and> (\<not> is_migrate x \<and> list_all (\<lambda>x. \<not> is_migrate x) ops \<longrightarrow> m' = m))"
  proof (intro allI impI)
    fix m assume "dbMetaCache s = Some m"
    with p1(4) obtain m1 where
      m1: "dbMetaCache (exec c x s) = Some m1" "lastMigrationVersion m \<le> lastMigrationVersion m1"
          "\<not> is_migrate x \<longrightarrow> m1 = m"
      by blast
    from p2(4) m1(1) obtain m2 where
      m2: "dbMetaCache (exec_all c ops (exec c x s)) = Some m2"
          "lastMigrationVersion m1 \<le> lastMigrationVersion m2"
          "list_all (\<lambda>x. \<not> is_migrate x) ops \<longrightarrow> m2 = m1"
      by blast
    from m1 m2 show "\<exists>m'. dbMetaCache (exec_all c ops (exec c x s)) = Some m'
              \<and> lastMigrationVersion m \<le> lastMigrationVersion m'
              \<and> (\<not> is_migrate x \<and> list_all (\<lambda>x. \<not> is_migrate x) ops \<longrightarrow> m' = m)"
      by auto
  qed
  moreover from p1(2) p2(2) have "not_behind po p2" by (rule not_behind_trans)
  moreover from p1(3) p2(3)
  have "po \<noteq> None \<and> \<not> is_migrate x \<and> list_all (\<lambda>x. \<not> is_migrate x) ops \<longrightarrow> p2 = po" by auto
  ultimately show ?case using p2(1) by (intro exI [of _ p2]) simp
qed

text \<open>What a new instance over the same storage reads.\<close>

lemma persisted_version_read:
  assumes "persisted c s p" "readable c p" "\<not> getItem_rejects c metaKey"
  shows "persisted_version c s = Some (lastMigrationVersion p)"
  using assms
  by (simp add: persisted_version_def reopened_def new_KeyValueDB_def persisted_def readable_def
        getMeta_def await_def AsyncStorage_getItem_def jsval_of_DBInfo_def version_of_def)

lemma persisted_version_blank:
  assumes "AsyncStorage s metaKey = None"
  shows "persisted_version c s = None"
  using assms
  by (simp add: persisted_version_def reopened_def new_KeyValueDB_def getMeta_def await_def
        AsyncStorage_getItem_def version_of_def)

lemma in_step_persisted_version:
  assumes "in_step c s po" "\<forall>p \<in> set_option po. readable c p" "\<not> getItem_rejects c metaKey"
  shows "persisted_version c s = map_option lastMigrationVersion po"
proof (cases po)
  case None
  with assms(1) show ?thesis by (simp add: in_step_def persisted_version_blank)
next
  case (Some p)
  with assms have "persisted c s p" "readable c p" by (simp_all add: in_step_def)
  from persisted_version_read [OF this assms(3)] Some show ?thesis by simp
qed

section \<open>Facts about the fixtures\<close>

lemmas fixture_defs = reference_collaborators_def fresh_db_def new_KeyValueDB_def guestMeta_def

lemmas op_defs = put_def update_def get_def del_def await_def ensure_init_def init_def getMeta_def
  putMeta_def makeUserKey_def AsyncStorage_getItem_def AsyncStorage_setItem_def
  AsyncStorage_removeItem_def assignDBInfo_def asPartial_def Let_def

lemma guest_db_fields:
  "dbMetaCache guest_db = Some guestMeta" "dbCache guest_db = Some Map.empty"
  "defaultMeta guest_db = guestMeta"
  by (simp_all add: guest_db_def ensure_init_def init_def await_def getMeta_def putMeta_def
        AsyncStorage_getItem_def AsyncStorage_setItem_def reference_collaborators_def fresh_db_def
        new_KeyValueDB_def assignDBInfo_def asPartial_def Let_def guestMeta_def)

lemmas migrate_eval = migrate_def validateMigrationVersionNumbers_def array_sort_def SortCompare_def
  putMeta_def AsyncStorage_setItem_def assignDBInfo_def Let_def getMeta_cached guest_db_fields
  calls_def returned_false_def


lemma key0: "parseInt ''0'' = Fin 0" "NumberToString (Fin 0) = ''0''"
  by code_simp+

lemma key5: "parseInt ''5'' = Fin 5" "NumberToString (Fin 5) = ''5''"
  by code_simp+

lemma key1: "parseInt ''1'' = Fin 1" "NumberToString (Fin 1) = ''1''"
  by code_simp+

lemma key2: "parseInt ''2'' = Fin 2" "NumberToString (Fin 2) = ''2''"
  by code_simp+

lemma key11: "parseInt ''11'' = Fin 11" "NumberToString (Fin 11) = ''11''"
  by code_simp+

lemma keyNaN: "parseInt ''NaN'' = NaN" "parseInt ''abc'' = NaN"
  by code_simp+

lemma positive_keys:
  "positive_integer_key ''1''" "positive_integer_key ''2''" "positive_integer_key ''11''"
  by (simp_all add: positive_integer_key_def key1 key2 key11 del: NumberToString.simps)

lemma key_versions: "key_version ''1'' = 1" "key_version ''2'' = 2" "key_version ''11'' = 11"
  by (simp_all add: key_version_def key1 key2 key11)

lemma valid_migTable1: "valid_table migTable1"
  by (simp add: valid_table_def migTable1_def positive_keys)
















lemma ver3_truthy: "truthy ver3"
  by (simp add: ver3_def)

lemma ver3_text: "json_text ver3 \<noteq> []" "json_read (json_text ver3) = Some ver3"
  by code_simp+

lemma candy_text: "json_text candy \<noteq> []" "json_read (json_text candy) = Some candy"
  by code_simp+

lemma json_read_corrupt: "json_read ''{broken'' = None"
  by code_simp

lemma db_v1_meta: "dbMetaCache db_v1 = Some (guestMeta\<lparr>lastMigrationVersion := 1\<rparr>)"
  by (simp add: db_v1_def migrate_eval migTable1_def key1 migration1_def migration2_def
        reference_collaborators_def alias_of_def guestMeta_def del: NumberToString.simps)

lemma db_v2_meta: "dbMetaCache db_v2 = Some (guestMeta\<lparr>lastMigrationVersion := 2\<rparr>)"
  by (simp add: db_v2_def migrate_eval migTable2_def key1 key2 migration1_def migration2_def migration3_def
        reference_collaborators_def alias_of_def guestMeta_def del: NumberToString.simps)

lemma bigobj_db_fields:
  "dbMetaCache bigobj_db = Some guestMeta"
  "dbCache bigobj_db = Some [''guest:bigobj'' \<mapsto> Own bigobj]"
  by (simp_all add: bigobj_db_def op_defs fixture_defs bigobj_def)

lemma bigobj_db_no_alias: "no_alias bigobj_db"
  by (simp add: no_alias_def bigobj_db_fields)

lemma update_bigobj:
  "fst (update reference_collaborators ''bigobj'' (Own candy) bigobj_db) = Inr ()"
  "dbMetaCache (snd (update reference_collaborators ''bigobj'' (Own candy) bigobj_db)) = Some guestMeta"
  by (simp_all add: update_def await_assoc_prelude prelude_with_meta bigobj_db_fields candy_def bigobj_def
        AsyncStorage_setItem_def reference_collaborators_def)

lemma corrupt_db_fields:
  "dbMetaCache corrupt_db = Some guestMeta" "dbCache corrupt_db = Some Map.empty"
  "AsyncStorage corrupt_db ''guest:corrupt'' = Some ''{broken''"
  by (simp_all add: corrupt_db_def guest_db_fields)

lemma guest_db_storage: "AsyncStorage guest_db ''guest:missing'' = None"
  by (simp add: guest_db_def op_defs fixture_defs metaKey_def)

lemma guest_db_persisted: "AsyncStorage guest_db metaKey = Some (json_text (jsval_of_DBInfo guestMeta))"
  by (simp add: guest_db_def op_defs fixture_defs)


lemma guest_texts:
  "json_text (Obj [(''lastMigrationVersion'', Num 0), (''currUser'', Str ''guest'')]) \<noteq> []"
  "json_read (json_text (Obj [(''lastMigrationVersion'', Num 0), (''currUser'', Str ''guest'')]))
     = Some (Obj [(''lastMigrationVersion'', Num 0), (''currUser'', Str ''guest'')])"
  "json_text (Obj [(''lastMigrationVersion'', Num 1), (''currUser'', Str ''guest'')]) \<noteq> []"
  "json_read (json_text (Obj [(''lastMigrationVersion'', Num 1), (''currUser'', Str ''guest'')]))
     = Some (Obj [(''lastMigrationVersion'', Num 1), (''currUser'', Str ''guest'')])"
  "json_text (Obj [(''lastMigrationVersion'', Num 2), (''currUser'', Str ''guest'')]) \<noteq> []"
  "json_read (json_text (Obj [(''lastMigrationVersion'', Num 2), (''currUser'', Str ''guest'')]))
     = Some (Obj [(''lastMigrationVersion'', Num 2), (''currUser'', Str ''guest'')])"
  "json_text (Obj [(''lastMigrationVersion'', Num 3), (''currUser'', Str ''guest'')]) \<noteq> []"
  "json_read (json_text (Obj [(''lastMigrationVersion'', Num 3), (''currUser'', Str ''guest'')]))
     = Some (Obj [(''lastMigrationVersion'', Num 3), (''currUser'', Str ''guest'')])"
  "json_text (Obj [(''lastMigrationVersion'', Num 10), (''currUser'', Str ''guest'')]) \<noteq> []"
  "json_read (json_text (Obj [(''lastMigrationVersion'', Num 10), (''currUser'', Str ''guest'')]))
     = Some (Obj [(''lastMigrationVersion'', Num 10), (''currUser'', Str ''guest'')])"
  by code_simp+

lemma guest_readable:
  "readable reference_collaborators \<lparr>lastMigrationVersion = 0, currUser = ''guest''\<rparr>"
  "readable reference_collaborators \<lparr>lastMigrationVersion = 1, currUser = ''guest''\<rparr>"
  "readable reference_collaborators \<lparr>lastMigrationVersion = 2, currUser = ''guest''\<rparr>"
  "readable reference_collaborators \<lparr>lastMigrationVersion = 3, currUser = ''guest''\<rparr>"
  "readable reference_collaborators \<lparr>lastMigrationVersion = 10, currUser = ''guest''\<rparr>"
  by (simp_all add: readable_def reference_collaborators_def jsval_of_DBInfo_def guest_texts
        del: json_text.simps)

lemma reference_reads: "\<not> getItem_rejects reference_collaborators metaKey"
  by (simp add: reference_collaborators_def)

lemma mocks_steady: "steady c migration1" "steady c migration2" "steady c migration3"
  by (simp_all add: steady_def migration1_def migration2_def migration3_def)

lemma fresh_db_in_step: "in_step reference_collaborators fresh_db None"
  by (simp add: in_step_def no_alias_def fresh_db_def new_KeyValueDB_def)

lemma guest_db_in_step: "in_step reference_collaborators guest_db (Some guestMeta)"
  by (simp add: in_step_def persisted_def no_alias_def guest_db_fields guest_db_persisted
        reference_collaborators_def)

lemma db_v2_fields:
  "dbCache db_v2 = Some Map.empty"
  "AsyncStorage db_v2 metaKey
     = Some (json_text (jsval_of_DBInfo \<lparr>lastMigrationVersion = 2, currUser = ''guest''\<rparr>))"
  by (simp_all add: db_v2_def migrate_eval migTable2_def key1 key2 migration1_def migration2_def
        migration3_def reference_collaborators_def alias_of_def guestMeta_def del: NumberToString.simps)

lemma db_v2_storage: "AsyncStorage db_v2 ''guest:testing'' = None"
  by (simp add: db_v2_def migrate_def validateMigrationVersionNumbers_def array_sort_def SortCompare_def
        Let_def migTable2_def key1 key2 migration1_def migration2_def migration3_def alias_of_def
        guest_db_def op_defs fixture_defs metaKey_def del: NumberToString.simps)

lemma reopened_db_v2_in_step:
  "in_step reference_collaborators (reopened db_v2) (Some \<lparr>lastMigrationVersion = 2, currUser = ''guest''\<rparr>)"
  using guest_readable(3)
  by (simp add: in_step_def persisted_def no_alias_def reopened_def new_KeyValueDB_def db_v2_fields
        reference_collaborators_def)

section \<open>The claims\<close>

text \<open>
  In what follows a store is \<^emph>\<open>initialised\<close> when \<^verbatim>\<open>getMeta\<close> finds its metadata, in
  the cache or in the storage. The trace of a run lists the invocations of the migration
  functions (\<open>Called\<close>) among the console lines.
\<close>

subsection \<open>C1: invalid version keys\<close>

text \<open>
  C1 says: a migration table with a version key that is not positive or not numeric makes
  \<^verbatim>\<open>migrate\<close> return \<^verbatim>\<open>false\<close>, run no migration function and leave
  \<^verbatim>\<open>lastMigrationVersion\<close> unchanged. The code does not do this. The validation tests the
  element that \<^verbatim>\<open>find\<close> returns for truthiness, so a first non-positive key \<^verbatim>\<open>0\<close> passes
  it; and \<^verbatim>\<open>parseInt\<close> never throws, so a key without digits becomes \<^verbatim>\<open>NaN\<close>, which is
  not \<^verbatim>\<open><= 0\<close>, and passes too. On the initialised store at version 0:
  \<^item> the table \<^verbatim>\<open>{0: [migration1], 5: [migration2]}\<close> is accepted, \<^verbatim>\<open>migration2\<close> runs,
    the version becomes 5 and the call returns \<^verbatim>\<open>true\<close>;
  \<^item> the table \<^verbatim>\<open>{0: [migration1]}\<close> is accepted and the call returns \<^verbatim>\<open>true\<close>;
  \<^item> the table \<^verbatim>\<open>{"NaN": [migration1]}\<close> is accepted, \<^verbatim>\<open>migration1\<close> runs and the call
    returns \<^verbatim>\<open>true\<close>;
  \<^item> with \<^verbatim>\<open>{1: [migration1], "abc": [migration2]}\<close> the call returns \<^verbatim>\<open>false\<close> only
    after \<^verbatim>\<open>migration1\<close> has run (the versions 1 and \<^verbatim>\<open>NaN\<close> compare as equal, so the
    stable sort keeps them in the order of the keys).
\<close>

theorem migrate_accepts_zero_and_NaN_keys:
  "fst (migrate reference_collaborators (Some [(''0'', [migration1]), (''5'', [migration2])]) guest_db) = True
   \<and> fst (snd (migrate reference_collaborators (Some [(''0'', [migration1]), (''5'', [migration2])]) guest_db))
       = [Called ''migration2'']
   \<and> version_of (snd (snd (migrate reference_collaborators
         (Some [(''0'', [migration1]), (''5'', [migration2])]) guest_db))) = Some 5
   \<and> version_of guest_db = Some 0
   \<and> migrate reference_collaborators (Some [(''0'', [migration1])]) guest_db = (True, [], guest_db)
   \<and> migrate reference_collaborators (Some [(''NaN'', [migration1])]) guest_db
       = (True, [Called ''migration1''], guest_db)
   \<and> migrate reference_collaborators (Some [(''1'', [migration1]), (''abc'', [migration2])]) guest_db
       = (False, [Called ''migration1'', ConsoleErrorExn TypeError], guest_db)"
  by (simp del: NumberToString.simps
        add: migrate_eval key0 key1 key5 keyNaN migration1_def migration2_def guestMeta_def
          NumberToString.simps(1) version_of_def reference_collaborators_def alias_of_def)

text \<open>
  Where the validation does reject: when the first key that is not positive is negative,
  the call returns \<^verbatim>\<open>false\<close> at once, with the store as \<^verbatim>\<open>getMeta\<close> left it.
\<close>

lemma migrate_rejects_negative_key:
  assumes "getMeta c s = (Inr (Some m), s0)"
    and "List.find (\<lambda>v. num_le v (Fin 0)) (map parseInt (map fst tbl)) = Some (Fin n)" "n \<noteq> 0"
  shows "migrate c (Some tbl) s
           = (False, [ConsoleError ''Migration versions must be positive integers''], s0)"
  using assms by (simp add: migrate_def validateMigrationVersionNumbers_def del: map_map)

subsection \<open>C2: empty or absent table\<close>

text \<open>
  C2 says: \<^verbatim>\<open>migrate\<close> with an empty or absent table reports failure and returns
  \<^verbatim>\<open>false\<close>. For the absent table the code does so. The empty table \<^verbatim>\<open>{}\<close> is truthy and
  passes the first guard; on an initialised store the call logs the information
  \<^verbatim>\<open>Empty migration function table. Skipping migration\<close>, falls through the loop and
  returns \<^verbatim>\<open>true\<close>.
\<close>

theorem migrate_empty_table_returns_true:
  "migrate reference_collaborators (Some []) guest_db
     = (True, [ConsoleInfo ''Empty migration function table. Skipping migration''], guest_db)"
  by (simp add: migrate_eval)

text \<open>The part of C2 that the code fulfils: a falsy table.\<close>

lemma migrate_absent_table:
  "migrate c None s = (False, [ConsoleError ''Migration function table must be non-empty''], s)"
  by (simp add: migrate_def)

subsection \<open>C3: order of the migrations, and the version persisted\<close>




subsection \<open>C4: versions already applied\<close>

text \<open>
  C4: on an initialised store at version \<open>N\<close>, a valid table all of whose versions are at most
  \<open>N\<close> executes no migration function and leaves the store, and so its
  \<^verbatim>\<open>lastMigrationVersion\<close>, as \<^verbatim>\<open>getMeta\<close> found it.
\<close>

theorem migrate_applied_versions_noop:
  assumes meta: "getMeta c s = (Inr (Some m), s0)"
    and tbl: "valid_table tbl"
    and old: "\<forall>k \<in> set (map fst tbl). key_version k \<le> lastMigrationVersion m"
  shows "fst (migrate c (Some tbl) s) = True
     \<and> calls (fst (snd (migrate c (Some tbl) s))) = []
     \<and> snd (snd (migrate c (Some tbl) s)) = s0
     \<and> version_of (snd (snd (migrate c (Some tbl) s))) = Some (lastMigrationVersion m)"
proof -
  note m0 = migrate_loads_metadata(1) [OF meta]
  note eq = migrate_loads_metadata(2) [OF meta, of tbl]
  from old have "\<forall>v \<in> set (sort (map key_version (map fst tbl))). v \<le> lastMigrationVersion m"
    by simp
  from migrate_versions_skipped [OF this]
  have "migrate_versions tbl m (map Fin (sort (map key_version (map fst tbl)))) (Fin 0) s0 = (Inr (Fin 0), [], s0)" .
  with m0 show ?thesis unfolding eq
    by (simp add: migrate_def getMeta_cached validate_valid [OF tbl] calls_def version_of_def del: map_map)
qed

text \<open>Migrating a second time with the table that brought the store to version 1.\<close>

theorem migrate_applied_versions_noop_witness:
  "getMeta reference_collaborators db_v1 = (Inr (Some (guestMeta\<lparr>lastMigrationVersion := 1\<rparr>)), db_v1)
   \<and> valid_table migTable1
   \<and> map fst migTable1 = [''1'']
   \<and> key_version ''1'' \<le> lastMigrationVersion (guestMeta\<lparr>lastMigrationVersion := 1\<rparr>)
   \<and> fst (migrate reference_collaborators (Some migTable1) db_v1) = True
   \<and> calls (fst (snd (migrate reference_collaborators (Some migTable1) db_v1))) = []
   \<and> snd (snd (migrate reference_collaborators (Some migTable1) db_v1)) = db_v1
   \<and> version_of (snd (snd (migrate reference_collaborators (Some migTable1) db_v1))) = Some 1"
proof -
  have h1: "getMeta reference_collaborators db_v1 = (Inr (Some (guestMeta\<lparr>lastMigrationVersion := 1\<rparr>)), db_v1)"
    by (rule getMeta_cached) (rule db_v1_meta)
  have h3: "\<forall>k \<in> set (map fst migTable1). key_version k \<le> lastMigrationVersion (guestMeta\<lparr>lastMigrationVersion := 1\<rparr>)"
    by (simp add: migTable1_def key_versions)
  have h4: "map fst migTable1 = [''1'']" by (simp add: migTable1_def)
  from migrate_applied_versions_noop [OF h1 valid_migTable1 h3] h1 valid_migTable1 h4 key_versions
  show ?thesis by auto
qed

subsection \<open>C5: a migration function that returns false\<close>






subsection \<open>C6: the version over sequences of public operations\<close>

text \<open>
  C6 says: across every sequence of public operations the persisted
  \<^verbatim>\<open>lastMigrationVersion\<close> never decreases, and only \<^verbatim>\<open>migrate\<close> advances it. The
  version persisted is read as a new instance over the same storage reads it. Said of
  every sequence, the claim fails.
  \<^item> \<^verbatim>\<open>putMeta\<close> is a public method that writes whatever version it is given: after the
    first \<^verbatim>\<open>get\<close> the version persisted is 0, \<^verbatim>\<open>putMeta({lastMigrationVersion: 3})\<close>
    raises it to 3 without any migration, and \<^verbatim>\<open>putMeta({lastMigrationVersion: 1})\<close>
    lowers it to 1.
  \<^item> \<^verbatim>\<open>getMeta\<close> returns the metadata object itself, \<^verbatim>\<open>put\<close> stores the object it is
    given, and \<^verbatim>\<open>update\<close> merges into the stored object in place. On the store at
    version 2, after \<^verbatim>\<open>put('meta', await getMeta())\<close> the call
    \<^verbatim>\<open>update('meta', {lastMigrationVersion: 0})\<close> sets the cached version to 0, with no
    \<^verbatim>\<open>putMeta\<close> and no migration; the storage still holds version 2. A migration with
    the table \<^verbatim>\<open>{1: [migration1, migration2]}\<close> then runs version 1 and persists 1, below 2.
  \<^item> The runner compares with the cached version and writes the cached record. When the
    storage is ahead of the cache (another instance over the same storage has persisted
    version 10), a migration with the versions 1 and 2 persists 2, below 10.
\<close>

theorem version_moves_without_migrate:
  "persisted_version reference_collaborators (exec_all reference_collaborators [Get ''testing''] fresh_db) = Some 0
   \<and> persisted_version reference_collaborators (exec_all reference_collaborators
        [Get ''testing'', PutMeta \<lparr>lastMigrationVersion_opt = Some 3, currUser_opt = None\<rparr>] fresh_db) = Some 3
   \<and> persisted_version reference_collaborators (exec_all reference_collaborators
        [Get ''testing'', PutMeta \<lparr>lastMigrationVersion_opt = Some 3, currUser_opt = None\<rparr>,
         PutMeta \<lparr>lastMigrationVersion_opt = Some 1, currUser_opt = None\<rparr>] fresh_db) = Some 1
   \<and> version_of db_v2 = Some 2
   \<and> persisted_version reference_collaborators db_v2 = Some 2
   \<and> version_of (exec_all reference_collaborators
        [GetMeta, Put ''meta'' MetaObject, Update ''meta'' (Own version0)] db_v2) = Some 0
   \<and> persisted_version reference_collaborators (exec_all reference_collaborators
        [GetMeta, Put ''meta'' MetaObject, Update ''meta'' (Own version0)] db_v2) = Some 2
   \<and> persisted_version reference_collaborators (exec_all reference_collaborators
        [GetMeta, Put ''meta'' MetaObject, Update ''meta'' (Own version0), Migrate (Some migTable1)] db_v2)
       = Some 1
   \<and> version_of stale_db = Some 0
   \<and> persisted_version reference_collaborators stale_db = Some 10
   \<and> persisted_version reference_collaborators (exec_all reference_collaborators
        [Migrate (Some migTable2)] stale_db) = Some 2"
proof -
  note rd = persisted_version_read [OF _ _ reference_reads]
  have a0: "persisted reference_collaborators (exec_all reference_collaborators [Get ''testing''] fresh_db)
              \<lparr>lastMigrationVersion = 0, currUser = ''guest''\<rparr>"
    by (simp add: persisted_def op_defs fixture_defs metaKey_def)
  have a3: "persisted reference_collaborators (exec_all reference_collaborators
        [Get ''testing'', PutMeta \<lparr>lastMigrationVersion_opt = Some 3, currUser_opt = None\<rparr>] fresh_db)
              \<lparr>lastMigrationVersion = 3, currUser = ''guest''\<rparr>"
    by (simp add: persisted_def op_defs fixture_defs metaKey_def)
  have a1: "persisted reference_collaborators (exec_all reference_collaborators
        [Get ''testing'', PutMeta \<lparr>lastMigrationVersion_opt = Some 3, currUser_opt = None\<rparr>,
         PutMeta \<lparr>lastMigrationVersion_opt = Some 1, currUser_opt = None\<rparr>] fresh_db)
              \<lparr>lastMigrationVersion = 1, currUser = ''guest''\<rparr>"
    by (simp add: persisted_def op_defs fixture_defs metaKey_def)
  have b2: "persisted reference_collaborators db_v2 \<lparr>lastMigrationVersion = 2, currUser = ''guest''\<rparr>"
    by (simp add: persisted_def db_v2_fields reference_collaborators_def)
  have v2: "version_of db_v2 = Some 2"
    by (simp add: version_of_def db_v2_meta)
  have al: "exec_all reference_collaborators
        [GetMeta, Put ''meta'' MetaObject, Update ''meta'' (Own version0)] db_v2
      = db_v2\<lparr> dbCache := Some [''guest:meta'' \<mapsto> MetaObject],
               dbMetaCache := Some \<lparr>lastMigrationVersion = 0, currUser = ''guest''\<rparr>,
               AsyncStorage := (AsyncStorage db_v2)
                 (''guest:meta'' \<mapsto> json_text version0) \<rparr>"
    by (simp add: getMeta_cached db_v2_meta db_v2_fields put_def update_def await_assoc_prelude
          prelude_with_meta AsyncStorage_setItem_def guestMeta_def version0_def entry_content_def
          reference_collaborators_def del: json_text.simps)
  have nk: "metaKey \<noteq> ''guest:meta''"
    by (simp add: metaKey_def)
  have c0: "version_of (exec_all reference_collaborators
        [GetMeta, Put ''meta'' MetaObject, Update ''meta'' (Own version0)] db_v2) = Some 0"
    unfolding al by (simp add: version_of_def)
  have c2: "persisted reference_collaborators (exec_all reference_collaborators
        [GetMeta, Put ''meta'' MetaObject, Update ''meta'' (Own version0)] db_v2)
              \<lparr>lastMigrationVersion = 2, currUser = ''guest''\<rparr>"
    unfolding al using nk by (simp add: persisted_def db_v2_fields reference_collaborators_def)
  have sp: "exec_all reference_collaborators
        [GetMeta, Put ''meta'' MetaObject, Update ''meta'' (Own version0), Migrate (Some migTable1)] db_v2
      = exec reference_collaborators (Migrate (Some migTable1)) (exec_all reference_collaborators
        [GetMeta, Put ''meta'' MetaObject, Update ''meta'' (Own version0)] db_v2)"
    by simp
  have c1: "persisted reference_collaborators (exec_all reference_collaborators
        [GetMeta, Put ''meta'' MetaObject, Update ''meta'' (Own version0), Migrate (Some migTable1)] db_v2)
              \<lparr>lastMigrationVersion = 1, currUser = ''guest''\<rparr>"
    unfolding sp al
    by (simp del: NumberToString.simps
          add: persisted_def migrate_def validateMigrationVersionNumbers_def array_sort_def SortCompare_def
            putMeta_def AsyncStorage_setItem_def assignDBInfo_def Let_def getMeta_cached
            migTable1_def key1 migration1_def migration2_def reference_collaborators_def alias_of_def)
  have d0: "version_of stale_db = Some 0"
    by (simp add: version_of_def stale_db_def guest_db_fields guestMeta_def)
  have d10: "persisted reference_collaborators stale_db \<lparr>lastMigrationVersion = 10, currUser = ''guest''\<rparr>"
    by (simp add: persisted_def stale_db_def guestMeta_def reference_collaborators_def)
  have d2: "persisted reference_collaborators (exec_all reference_collaborators
        [Migrate (Some migTable2)] stale_db) \<lparr>lastMigrationVersion = 2, currUser = ''guest''\<rparr>"
    by (simp del: NumberToString.simps
          add: persisted_def stale_db_def migrate_eval migTable2_def key1 key2 migration1_def
            migration2_def migration3_def reference_collaborators_def alias_of_def guestMeta_def)
  from rd [OF a0 guest_readable(1)] rd [OF a3 guest_readable(4)] rd [OF a1 guest_readable(2)]
    rd [OF b2 guest_readable(3)] rd [OF c2 guest_readable(3)] rd [OF c1 guest_readable(2)]
    rd [OF d10 guest_readable(5)] rd [OF d2 guest_readable(3)] v2 c0 d0
  show ?thesis by simp
qed

text \<open>
  C6, amended: on a store in step with its storage (nothing is stored under the metadata
  key yet, or the storage holds a metadata record and the cached metadata, once loaded, is
  not behind it; and no entry of the cache is the metadata object), across every sequence
  of public operations without \<^verbatim>\<open>putMeta\<close>, in which no \<^verbatim>\<open>put\<close> stores the metadata
  object and every migration function is steady, the store stays in step, the persisted
  \<^verbatim>\<open>lastMigrationVersion\<close> never decreases, and once there is one it stays as it is when
  no operation of the sequence is \<^verbatim>\<open>migrate\<close>; where the codec reads the stored records
  back, this is the version a new instance over the storage reports. The same holds of
  the cached version. The tables need not be valid, and the migration functions and the
  storage may fail.
\<close>

theorem persisted_version_monotone:
  assumes st: "in_step c s po" and ops: "list_all (admissible c) ops"
  shows "\<exists>po'. in_step c (exec_all c ops s) po'
           \<and> not_behind po po'
           \<and> (po \<noteq> None \<and> list_all (\<lambda>x. \<not> is_migrate x) ops \<longrightarrow> po' = po)
           \<and> ((\<forall>p \<in> set_option po. readable c p) \<and> \<not> getItem_rejects c metaKey \<longrightarrow>
                persisted_version c s = map_option lastMigrationVersion po)
           \<and> ((\<forall>p \<in> set_option po'. readable c p) \<and> \<not> getItem_rejects c metaKey \<longrightarrow>
                persisted_version c (exec_all c ops s) = map_option lastMigrationVersion po')
           \<and> (\<forall>m. dbMetaCache s = Some m \<longrightarrow>
                 (\<exists>m'. dbMetaCache (exec_all c ops s) = Some m'
                    \<and> lastMigrationVersion m \<le> lastMigrationVersion m'
                    \<and> (list_all (\<lambda>x. \<not> is_migrate x) ops \<longrightarrow> m' = m)))"
proof -
  from exec_all_in_step [OF st ops] obtain po' where
    r: "in_step c (exec_all c ops s) po'" "not_behind po po'"
       "po \<noteq> None \<and> list_all (\<lambda>x. \<not> is_migrate x) ops \<longrightarrow> po' = po"
       "\<forall>m. dbMetaCache s = Some m \<longrightarrow>
           (\<exists>m'. dbMetaCache (exec_all c ops s) = Some m'
              \<and> lastMigrationVersion m \<le> lastMigrationVersion m'
              \<and> (list_all (\<lambda>x. \<not> is_migrate x) ops \<longrightarrow> m' = m))"
    by blast
  have "((\<forall>p \<in> set_option po. readable c p) \<and> \<not> getItem_rejects c metaKey \<longrightarrow>
                persisted_version c s = map_option lastMigrationVersion po)
      \<and> ((\<forall>p \<in> set_option po'. readable c p) \<and> \<not> getItem_rejects c metaKey \<longrightarrow>
                persisted_version c (exec_all c ops s) = map_option lastMigrationVersion po')"
    using in_step_persisted_version [OF st] in_step_persisted_version [OF r(1)] by blast
  with r show ?thesis by blast
qed

text \<open>
  From the store before its first use, a \<^verbatim>\<open>put\<close> and a migration leave version 2
  persisted. From the store after its first use, a sequence with three migrations, the
  last one with the older table, ends with version 2 persisted, and a sequence without a
  migration leaves version 0 persisted. A new instance over the storage at version 2
  keeps it there through a migration with the older table.
\<close>

theorem persisted_version_monotone_witness:
  "in_step reference_collaborators fresh_db None
   \<and> list_all (admissible reference_collaborators) [Put ''testing'' (Own ver3), Migrate (Some migTable2)]
   \<and> persisted_version reference_collaborators fresh_db = None
   \<and> persisted_version reference_collaborators (exec_all reference_collaborators
       [Put ''testing'' (Own ver3), Migrate (Some migTable2)] fresh_db) = Some 2
   \<and> in_step reference_collaborators guest_db (Some guestMeta)
   \<and> list_all (admissible reference_collaborators)
       [Put ''testing'' (Own ver3), Migrate (Some migTable1), PurgeCache, Migrate (Some migTable2),
        Update ''testing'' (Own candy), Migrate (Some migTable1)]
   \<and> persisted_version reference_collaborators guest_db = Some 0
   \<and> persisted_version reference_collaborators (exec_all reference_collaborators
       [Put ''testing'' (Own ver3), Migrate (Some migTable1), PurgeCache, Migrate (Some migTable2),
        Update ''testing'' (Own candy), Migrate (Some migTable1)] guest_db) = Some 2
   \<and> list_all (admissible reference_collaborators)
       [Put ''testing'' (Own ver3), Get ''testing'', Update ''testing'' (Own candy), PurgeCache, Del ''testing'']
   \<and> persisted_version reference_collaborators (exec_all reference_collaborators
       [Put ''testing'' (Own ver3), Get ''testing'', Update ''testing'' (Own candy), PurgeCache, Del ''testing'']
       guest_db) = Some 0
   \<and> version_of (exec_all reference_collaborators
       [Put ''testing'' (Own ver3), Get ''testing'', Update ''testing'' (Own candy), PurgeCache, Del ''testing'']
       guest_db) = Some 0
   \<and> dbMetaCache (reopened db_v2) = None
   \<and> in_step reference_collaborators (reopened db_v2) (Some \<lparr>lastMigrationVersion = 2, currUser = ''guest''\<rparr>)
   \<and> list_all (admissible reference_collaborators) [Get ''testing'', Migrate (Some migTable1)]
   \<and> persisted_version reference_collaborators (reopened db_v2) = Some 2
   \<and> persisted_version reference_collaborators (exec_all reference_collaborators
       [Get ''testing'', Migrate (Some migTable1)] (reopened db_v2)) = Some 2"
proof -
  note rd = persisted_version_read [OF _ _ reference_reads]
  have g: "guestMeta = \<lparr>lastMigrationVersion = 0, currUser = ''guest''\<rparr>"
    by (simp add: guestMeta_def)
  have r0: "readable reference_collaborators guestMeta"
    using guest_readable(1) by (simp add: g)
  have m0: "dbMetaCache guest_db = Some guestMeta" by (rule guest_db_fields)
  have o0: "list_all (admissible reference_collaborators) [Put ''testing'' (Own ver3), Migrate (Some migTable2)]"
    using mocks_steady by (simp add: table_functions_def migTable2_def)
  have o1: "list_all (admissible reference_collaborators)
       [Put ''testing'' (Own ver3), Migrate (Some migTable1), PurgeCache, Migrate (Some migTable2),
        Update ''testing'' (Own candy), Migrate (Some migTable1)]"
    using mocks_steady by (simp add: table_functions_def migTable1_def migTable2_def)
  have o2: "list_all (admissible reference_collaborators)
       [Put ''testing'' (Own ver3), Get ''testing'', Update ''testing'' (Own candy), PurgeCache, Del ''testing'']"
    by simp
  have o3: "list_all (admissible reference_collaborators) [Get ''testing'', Migrate (Some migTable1)]"
    using mocks_steady by (simp add: table_functions_def migTable1_def)
  have f0: "persisted_version reference_collaborators fresh_db = None"
    using persisted_version_monotone [OF fresh_db_in_step o0] reference_reads by auto
  have e0: "persisted reference_collaborators (exec_all reference_collaborators
       [Put ''testing'' (Own ver3), Migrate (Some migTable2)] fresh_db)
          \<lparr>lastMigrationVersion = 2, currUser = ''guest''\<rparr>"
    by (simp del: NumberToString.simps json_text.simps
          add: persisted_def op_defs fixture_defs metaKey_def migrate_def validateMigrationVersionNumbers_def
           array_sort_def SortCompare_def key1 key2 ver3_def
           migTable2_def migration1_def migration2_def migration3_def alias_of_def entry_content_def)
  have e1: "persisted reference_collaborators (exec_all reference_collaborators
       [Put ''testing'' (Own ver3), Migrate (Some migTable1), PurgeCache, Migrate (Some migTable2),
        Update ''testing'' (Own candy), Migrate (Some migTable1)] guest_db)
          \<lparr>lastMigrationVersion = 2, currUser = ''guest''\<rparr>"
    by (simp del: NumberToString.simps json_text.simps
          add: persisted_def op_defs fixture_defs metaKey_def migrate_eval key1 key2 ver3_def candy_def
           migTable1_def migTable2_def migration1_def migration2_def migration3_def alias_of_def
           purgeCache_def guest_db_def entry_content_def)
  have s0: "persisted_version reference_collaborators guest_db = Some 0"
    using persisted_version_monotone [OF guest_db_in_step o1] r0 reference_reads
    by (auto simp: g)
  have s2: "persisted_version reference_collaborators (exec_all reference_collaborators
       [Put ''testing'' (Own ver3), Get ''testing'', Update ''testing'' (Own candy), PurgeCache, Del ''testing'']
       guest_db) = Some 0
     \<and> version_of (exec_all reference_collaborators
       [Put ''testing'' (Own ver3), Get ''testing'', Update ''testing'' (Own candy), PurgeCache, Del ''testing'']
       guest_db) = Some 0"
    using persisted_version_monotone [OF guest_db_in_step o2] r0 reference_reads m0
    by (auto simp: g version_of_def)
  have u: "dbMetaCache (reopened db_v2) = None"
    by (simp add: reopened_def new_KeyValueDB_def)
  have s3: "persisted_version reference_collaborators (reopened db_v2) = Some 2
     \<and> persisted_version reference_collaborators (exec_all reference_collaborators
       [Get ''testing'', Migrate (Some migTable1)] (reopened db_v2)) = Some 2"
  proof -
    from persisted_version_monotone [OF reopened_db_v2_in_step o3] guest_readable(3) reference_reads
    have p': "persisted_version reference_collaborators (reopened db_v2) = Some 2"
      by auto
    have e3: "persisted reference_collaborators (exec_all reference_collaborators
             [Get ''testing'', Migrate (Some migTable1)] (reopened db_v2))
          \<lparr>lastMigrationVersion = 2, currUser = ''guest''\<rparr>"
      using guest_texts(5,6)
      by (simp del: NumberToString.simps json_text.simps
            add: persisted_def reopened_def new_KeyValueDB_def db_v2_fields db_v2_storage get_def await_def
              ensure_init_def init_def getMeta_def makeUserKey_def AsyncStorage_getItem_def
              jsval_of_DBInfo_def migrate_def validateMigrationVersionNumbers_def array_sort_def
              SortCompare_def Let_def migTable1_def key1 reference_collaborators_def)
    from p' rd [OF e3 guest_readable(3)] show ?thesis by simp
  qed
  from fresh_db_in_step guest_db_in_step o0 o1 o2 o3 f0 s0 s2 s3 u reopened_db_v2_in_step
    rd [OF e0 guest_readable(3)] rd [OF e1 guest_readable(3)]
  show ?thesis by simp
qed

subsection \<open>C7: update merges in the cache and persists the fragment\<close>

text \<open>
  C7: after a successful \<^verbatim>\<open>update(k, p)\<close> the cache entry of the namespaced key is
  \<^verbatim>\<open>Object.assign\<close> of the object cached before (or of a new empty object) and \<open>p\<close>, which on
  plain objects is the shallow merge; \<^verbatim>\<open>get(k)\<close> returns this merged object from the
  cache; the storage holds the JSON text of \<open>p\<close> alone; and after \<^verbatim>\<open>purgeCache\<close> a
  \<^verbatim>\<open>get(k)\<close> returns \<open>p\<close>, the last fragment. The codec is taken to be lossless on \<open>p\<close> and
  the storage to accept the read. The entries of the cache are objects of their own: what
  \<^verbatim>\<open>update\<close> does when the entry is the metadata object is lemma
  \<open>update_metadata_entry\<close>. Here \<open>x\<close> is the content of \<open>p\<close>, which is \<open>p\<close> itself unless \<open>p\<close> is
  the metadata object.
\<close>

theorem update_merges_cache_persists_fragment:
  assumes ok: "fst (update c k p s) = Inr ()"
    and meta: "dbMetaCache (snd (update c k p s)) = Some m"
    and own: "no_alias s"
    and content: "entry_content (snd (update c k p s)) p = x"
    and lossless: "JSON_stringify c x \<noteq> []" "JSON_parse c (JSON_stringify c x) = Some x"
    and readable: "\<not> getItem_rejects c (currUser m @ '':'' @ k)"
  shows "\<exists>t merged.
       cached_or_empty s (currUser m @ '':'' @ k) = Own t
     \<and> Object_assign t x = Inr merged
     \<and> (\<forall>ps qs. t = Obj ps \<and> x = Obj qs \<longrightarrow>
           (\<exists>rs. merged = Obj rs \<and> map_of rs = map_of ps ++ map_of (rev qs)))
     \<and> get c k (snd (update c k p s)) = (Inr (Own merged), [], snd (update c k p s))
     \<and> AsyncStorage (snd (update c k p s)) (currUser m @ '':'' @ k) = Some (JSON_stringify c x)
     \<and> fst (get c k (purgeCache (snd (update c k p s)))) = Inr (Own x)"
proof -
  obtain s' where u: "update c k p s = (Inr (), s')"
    using ok by (cases "update c k p s") auto
  from update_success [OF u own] meta u content obtain cache t merged where
    s': "dbMetaCache s' = Some m" "dbCache s' = Some cache"
        "cached_or_empty s (currUser m @ '':'' @ k) = Own t"
        "Object_assign t x = Inr merged"
        "cache (currUser m @ '':'' @ k) = Some (Own merged)"
        "AsyncStorage s' (currUser m @ '':'' @ k) = Some (JSON_stringify c x)" "k \<noteq> []"
    by auto
  have a: "get c k s' = (Inr (Own merged), [], s')"
    using s' by (simp add: get_cached)
  have b: "get c k (purgeCache s') = (Inr (Own x), [], s'\<lparr>dbCache := Some [currUser m @ '':'' @ k \<mapsto> Own x]\<rparr>)"
    using get_from_store [of k "purgeCache s'" Map.empty m c "JSON_stringify c x" x] s' lossless readable
    by (simp add: purgeCache_def)
  have f: "\<forall>ps qs. t = Obj ps \<and> x = Obj qs \<longrightarrow>
           (\<exists>rs. merged = Obj rs \<and> map_of rs = map_of ps ++ map_of (rev qs))"
    using s'(4) by (auto simp: map_of_assign)
  show ?thesis using a b f s' u by auto
qed

text \<open>The test \<^verbatim>\<open>update partial object\<close>, continued by a purge.\<close>

theorem update_merges_cache_persists_fragment_witness:
  "fst (update reference_collaborators ''bigobj'' (Own candy) bigobj_db) = Inr ()
   \<and> dbMetaCache (snd (update reference_collaborators ''bigobj'' (Own candy) bigobj_db)) = Some guestMeta
   \<and> no_alias bigobj_db
   \<and> entry_content (snd (update reference_collaborators ''bigobj'' (Own candy) bigobj_db)) (Own candy) = candy
   \<and> JSON_stringify reference_collaborators candy \<noteq> []
   \<and> JSON_parse reference_collaborators (JSON_stringify reference_collaborators candy) = Some candy
   \<and> \<not> getItem_rejects reference_collaborators (currUser guestMeta @ '':'' @ ''bigobj'')
   \<and> cached_or_empty bigobj_db ''guest:bigobj'' = Own bigobj
   \<and> fst (get reference_collaborators ''bigobj'' (snd (update reference_collaborators ''bigobj'' (Own candy) bigobj_db)))
        = Inr (Own (Obj [(''name'', Str ''candy''), (''lastName'', Str ''dua''), (''email'', Str ''akshay@gmail.com'')]))
   \<and> AsyncStorage (snd (update reference_collaborators ''bigobj'' (Own candy) bigobj_db)) ''guest:bigobj''
        = Some (json_text candy)
   \<and> fst (get reference_collaborators ''bigobj''
        (purgeCache (snd (update reference_collaborators ''bigobj'' (Own candy) bigobj_db)))) = Inr (Own candy)"
proof -
  have h0: "entry_content (snd (update reference_collaborators ''bigobj'' (Own candy) bigobj_db)) (Own candy) = candy"
    by simp
  have h3: "JSON_stringify reference_collaborators candy \<noteq> []"
    using candy_text by (simp add: reference_collaborators_def)
  have h4: "JSON_parse reference_collaborators (JSON_stringify reference_collaborators candy) = Some candy"
    using candy_text by (simp add: reference_collaborators_def)
  have h5: "\<not> getItem_rejects reference_collaborators (currUser guestMeta @ '':'' @ ''bigobj'')"
    by (simp add: reference_collaborators_def)
  have t: "cached_or_empty bigobj_db (currUser guestMeta @ '':'' @ ''bigobj'') = Own bigobj"
    by (simp add: cached_or_empty_def bigobj_db_fields guestMeta_def)
  have a: "Object_assign bigobj candy
             = Inr (Obj [(''name'', Str ''candy''), (''lastName'', Str ''dua''), (''email'', Str ''akshay@gmail.com'')])"
    by (simp add: bigobj_def candy_def)
  from update_merges_cache_persists_fragment [OF update_bigobj bigobj_db_no_alias h0 h3 h4 h5]
    update_bigobj bigobj_db_no_alias h0 h3 h4 h5 t a
  show ?thesis
    by (auto simp: guestMeta_def reference_collaborators_def)
qed

subsection \<open>C8: failures on the read path of get\<close>

text \<open>
  C8 says: when the store read or the JSON parse during \<^verbatim>\<open>get(k)\<close> fails, \<^verbatim>\<open>get\<close> logs
  the error and returns \<^verbatim>\<open>undefined\<close>, so that no caller can tell a failure from a key
  that was never stored. This holds for the read of the entry, not for every read that
  \<^verbatim>\<open>get\<close> makes: the first \<^verbatim>\<open>get\<close> on an instance initialises the store, and the read
  and the parse of the metadata are outside the \<^verbatim>\<open>try\<close>. A storage that rejects the read
  of the metadata key, or a metadata text that does not parse, makes \<^verbatim>\<open>get\<close> throw.
\<close>

theorem get_propagates_failure_of_initialisation:
  "fst (get (reference_collaborators\<lparr> getItem_rejects := (\<lambda>key. key = metaKey) \<rparr>) ''testing'' fresh_db)
     = Inl (Rejected metaKey)
   \<and> fst (get reference_collaborators ''testing'' (new_KeyValueDB guestMeta [metaKey \<mapsto> ''{broken'']))
     = Inl (SyntaxError ''{broken'')"
  using json_read_corrupt
  by (simp add: get_def await_def ensure_init_def init_def getMeta_def AsyncStorage_getItem_def
        fixture_defs)

text \<open>
  C8, amended: for a non-empty key, once the initialisation and the resolution of the key
  have succeeded and the entry is not in the cache, a rejected read of the entry and a
  stored text that does not parse are logged and give \<^verbatim>\<open>undefined\<close>, the value \<^verbatim>\<open>get\<close>
  returns for a key that was never stored; nothing is thrown and the cache stays as it was.
\<close>

theorem get_swallows_read_failure:
  assumes key: "k \<noteq> []"
    and resolved: "await (ensure_init c) (\<lambda>_. makeUserKey c k) s = (Inr userKey, s1)"
    and miss: "dbCache s1 = Some cache" "cache userKey = None"
  shows "(getItem_rejects c userKey \<longrightarrow>
            get c k s = (Inr (Own Undefined), [ConsoleErrorExn (Rejected userKey)], s1))
       \<and> (\<forall>j. \<not> getItem_rejects c userKey \<and> AsyncStorage s1 userKey = Some j \<and> j \<noteq> [] \<and> JSON_parse c j = None \<longrightarrow>
            get c k s = (Inr (Own Undefined), [ConsoleErrorExn (SyntaxError j)], s1))
       \<and> (\<not> getItem_rejects c userKey \<and> AsyncStorage s1 userKey = None \<longrightarrow>
            get c k s = (Inr (Own Undefined), [], s1))"
  using assms by (simp add: get_def AsyncStorage_getItem_def)

text \<open>A rejected read, a corrupt entry and a missing entry all give \<^verbatim>\<open>undefined\<close>.\<close>

theorem get_swallows_read_failure_witness:
  "get flaky_collaborators ''flaky'' guest_db
     = (Inr (Own Undefined), [ConsoleErrorExn (Rejected ''guest:flaky'')], guest_db)
   \<and> get reference_collaborators ''corrupt'' corrupt_db
     = (Inr (Own Undefined), [ConsoleErrorExn (SyntaxError ''{broken'')], corrupt_db)
   \<and> get reference_collaborators ''missing'' guest_db = (Inr (Own Undefined), [], guest_db)"
proof -
  have p1: "await (ensure_init flaky_collaborators) (\<lambda>_. makeUserKey flaky_collaborators ''flaky'') guest_db
              = (Inr ''guest:flaky'', guest_db)"
    using prelude_initialized [OF guest_db_fields(2) guest_db_fields(1)] by (simp add: guestMeta_def)
  have p2: "await (ensure_init reference_collaborators) (\<lambda>_. makeUserKey reference_collaborators ''corrupt'') corrupt_db
              = (Inr ''guest:corrupt'', corrupt_db)"
    using prelude_initialized [OF corrupt_db_fields(2) corrupt_db_fields(1)] by (simp add: guestMeta_def)
  have p3: "await (ensure_init reference_collaborators) (\<lambda>_. makeUserKey reference_collaborators ''missing'') guest_db
              = (Inr ''guest:missing'', guest_db)"
    using prelude_initialized [OF guest_db_fields(2) guest_db_fields(1)] by (simp add: guestMeta_def)
  have k: "''flaky'' \<noteq> []" "''corrupt'' \<noteq> []" "''missing'' \<noteq> []" by simp_all
  have e: "Map.empty ''guest:flaky'' = None" "Map.empty ''guest:corrupt'' = None"
    "Map.empty ''guest:missing'' = None" by simp_all
  from get_swallows_read_failure [OF k(1) p1 guest_db_fields(2) e(1)]
  have a: "get flaky_collaborators ''flaky'' guest_db
     = (Inr (Own Undefined), [ConsoleErrorExn (Rejected ''guest:flaky'')], guest_db)"
    by (simp add: flaky_collaborators_def)
  from get_swallows_read_failure [OF k(2) p2 corrupt_db_fields(2) e(2)]
  have b: "get reference_collaborators ''corrupt'' corrupt_db
     = (Inr (Own Undefined), [ConsoleErrorExn (SyntaxError ''{broken'')], corrupt_db)"
    using corrupt_db_fields(3) json_read_corrupt by (simp add: reference_collaborators_def)
  from get_swallows_read_failure [OF k(3) p3 guest_db_fields(2) e(3)]
  have c: "get reference_collaborators ''missing'' guest_db = (Inr (Own Undefined), [], guest_db)"
    using guest_db_storage by (simp add: reference_collaborators_def)
  from a b c show ?thesis by simp
qed

subsection \<open>C9: put, then get\<close>

text \<open>
  C9: after a successful \<^verbatim>\<open>put(k, v)\<close>, \<^verbatim>\<open>get(k)\<close> returns \<open>v\<close> from the cache; and
  after \<^verbatim>\<open>purgeCache()\<close>, which empties the cache, \<^verbatim>\<open>get(k)\<close> returns \<open>v\<close> again, read
  from the storage, and the cache holds the entry once more. The codec is taken to be
  lossless on \<open>v\<close> and the storage to accept the read. From the cache \<^verbatim>\<open>get\<close> returns the
  very object that was put; from the storage, an object of its own with the content \<open>x\<close> of
  \<open>v\<close>.
\<close>

theorem put_then_get:
  assumes ok: "fst (put c k v s) = Inr ()"
    and meta: "dbMetaCache (snd (put c k v s)) = Some m"
    and content: "entry_content (snd (put c k v s)) v = x"
    and lossless: "JSON_stringify c x \<noteq> []" "JSON_parse c (JSON_stringify c x) = Some x"
    and readable: "\<not> getItem_rejects c (currUser m @ '':'' @ k)"
  shows "get c k (snd (put c k v s)) = (Inr v, [], snd (put c k v s))
       \<and> getCache (purgeCache (snd (put c k v s))) = Some Map.empty
       \<and> get c k (purgeCache (snd (put c k v s)))
           = (Inr (Own x), [], (snd (put c k v s))\<lparr>dbCache := Some [currUser m @ '':'' @ k \<mapsto> Own x]\<rparr>)"
proof -
  obtain s' where p: "put c k v s = (Inr (), s')"
    using ok by (cases "put c k v s") auto
  from put_success [OF p] meta p content obtain cache where
    s': "dbMetaCache s' = Some m" "dbCache s' = Some cache"
        "cache (currUser m @ '':'' @ k) = Some v"
        "AsyncStorage s' (currUser m @ '':'' @ k) = Some (JSON_stringify c x)" "k \<noteq> []"
    by auto
  have a: "get c k s' = (Inr v, [], s')"
    using s' by (simp add: get_cached)
  have b: "get c k (purgeCache s') = (Inr (Own x), [], s'\<lparr>dbCache := Some [currUser m @ '':'' @ k \<mapsto> Own x]\<rparr>)"
    using get_from_store [of k "purgeCache s'" Map.empty m c "JSON_stringify c x" x] s' lossless readable
    by (simp add: purgeCache_def)
  show ?thesis using a b p by (simp add: getCache_def purgeCache_def)
qed

text \<open>The tests \<^verbatim>\<open>common case get put\<close> and \<^verbatim>\<open>cache is populated after a get\<close>.\<close>

theorem put_then_get_witness:
  "fst (put reference_collaborators ''testing'' (Own ver3) fresh_db) = Inr ()
   \<and> dbMetaCache (snd (put reference_collaborators ''testing'' (Own ver3) fresh_db)) = Some guestMeta
   \<and> entry_content (snd (put reference_collaborators ''testing'' (Own ver3) fresh_db)) (Own ver3) = ver3
   \<and> JSON_stringify reference_collaborators ver3 \<noteq> []
   \<and> JSON_parse reference_collaborators (JSON_stringify reference_collaborators ver3) = Some ver3
   \<and> \<not> getItem_rejects reference_collaborators (currUser guestMeta @ '':'' @ ''testing'')
   \<and> fst (get reference_collaborators ''testing'' (snd (put reference_collaborators ''testing'' (Own ver3) fresh_db)))
        = Inr (Own ver3)
   \<and> fst (get reference_collaborators ''testing''
        (purgeCache (snd (put reference_collaborators ''testing'' (Own ver3) fresh_db)))) = Inr (Own ver3)"
proof -
  have h1: "fst (put reference_collaborators ''testing'' (Own ver3) fresh_db) = Inr ()"
    using ver3_truthy by (simp add: op_defs fixture_defs)
  have h2: "dbMetaCache (snd (put reference_collaborators ''testing'' (Own ver3) fresh_db)) = Some guestMeta"
    using ver3_truthy by (simp add: op_defs fixture_defs)
  have h0: "entry_content (snd (put reference_collaborators ''testing'' (Own ver3) fresh_db)) (Own ver3) = ver3"
    by simp
  have h3: "JSON_stringify reference_collaborators ver3 \<noteq> []"
    using ver3_text by (simp add: reference_collaborators_def)
  have h4: "JSON_parse reference_collaborators (JSON_stringify reference_collaborators ver3) = Some ver3"
    using ver3_text by (simp add: reference_collaborators_def)
  have h5: "\<not> getItem_rejects reference_collaborators (currUser guestMeta @ '':'' @ ''testing'')"
    by (simp add: reference_collaborators_def)
  from put_then_get [OF h1 h2 h0 h3 h4 h5] h1 h2 h0 h3 h4 h5 show ?thesis
    by simp
qed

subsection \<open>C10: undefined and null from cacheGet\<close>



end
